theory Spec2Isabelle
  imports Main
begin

section \<open>The icon generator script \<^verbatim>\<open>generate-png-icons.py\<close>\<close>

text \<open>
  The script is a straight line of calls into two image libraries (cairosvg, Pillow) and
  the operating system, wrapped in \<^verbatim>\<open>try/except\<close> blocks. The model keeps that
  shape: a statement is a state transformer that either completes or raises, a block runs
  its statements in order up to the first raise, and \<^verbatim>\<open>try/except\<close> is a combinator.

  The libraries are not code of this repository. Each library call asks a \<open>world\<close>
  whether it returns or raises, given the calls made so far and the file system as it is
  at that moment; when it returns, its effect is the documented one
  (\<^verbatim>\<open>svg2png\<close> with \<^verbatim>\<open>output_width\<close>/\<^verbatim>\<open>output_height\<close> writes a PNG of that size,
  \<^verbatim>\<open>Image.save(format='ICO', sizes=...)\<close> writes one frame per requested size that
  fits the image, \<^verbatim>\<open>os.remove\<close> deletes the file). A call that raises may leave its
  own target path untouched or in any other condition the world chooses. Exceptions are
  those derived from \<^verbatim>\<open>Exception\<close>; \<^verbatim>\<open>print\<close>, \<^verbatim>\<open>os.path.exists\<close> and
  \<^verbatim>\<open>os.system\<close> do not raise.
\<close>

subsection \<open>Files, exceptions, library calls\<close>

datatype content = Svg | Png int int | Ico "(int \<times> int) list" | Other

datatype exn_class = ImportError | OtherException

datatype exn = Exn exn_class string

fun str_exn :: "exn \<Rightarrow> string" where
  "str_exn (Exn c t) = t"

fun is_ImportError :: "exn \<Rightarrow> bool" where
  "is_ImportError (Exn c t) = (c = ImportError)"

fun is_Exception :: "exn \<Rightarrow> bool" where
  "is_Exception e = True"

datatype call =
    Import string
  | Os_system string
  | Path_exists string
  | Svg2png string string int int
  | Image_open string
  | Image_save string "int \<times> int" "(int \<times> int) list"
  | Os_remove string

datatype residue = Untouched | Leaves "content option"

datatype outcome = Returns | Raises exn residue

type_synonym event = "call \<times> outcome"

type_synonym world = "event list \<Rightarrow> (string \<rightharpoonup> content) \<Rightarrow> call \<Rightarrow> outcome"

record state =
  fs :: "string \<rightharpoonup> content"
  stdout :: "string list"
  trace :: "event list"
  success_count :: int
  img :: "(int \<times> int) option"

definition init :: "(string \<rightharpoonup> content) \<Rightarrow> state" where
  "init f = \<lparr>fs = f, stdout = [], trace = [], success_count = 0, img = None\<rparr>"

type_synonym stmt = "state \<Rightarrow> exn option \<times> state"

subsection \<open>Control flow\<close>

fun block :: "stmt list \<Rightarrow> stmt" where
  "block [] s = (None, s)"
| "block (c # cs) s =
     (case c s of
        (None, s') \<Rightarrow> block cs s'
      | (Some e, s') \<Rightarrow> (Some e, s'))"

definition try_except :: "stmt \<Rightarrow> (exn \<Rightarrow> bool) \<Rightarrow> (exn \<Rightarrow> stmt) \<Rightarrow> stmt" where
  "try_except body catches handler s =
     (case body s of
        (None, s') \<Rightarrow> (None, s')
      | (Some e, s') \<Rightarrow> if catches e then handler e s' else (Some e, s'))"

definition for_each :: "'a list \<Rightarrow> ('a \<Rightarrow> stmt) \<Rightarrow> stmt" where
  "for_each xs body = block (map body xs)"

subsection \<open>Primitive statements\<close>

definition print :: "string \<Rightarrow> stmt" where
  "print line s = (None, s\<lparr>stdout := stdout s @ [line]\<rparr>)"

definition record_event :: "call \<Rightarrow> outcome \<Rightarrow> state \<Rightarrow> state" where
  "record_event c r s = s\<lparr>trace := trace s @ [(c, r)]\<rparr>"

fun target :: "call \<Rightarrow> string option" where
  "target (Svg2png url write_to w h) = Some write_to"
| "target (Image_save p d sizes) = Some p"
| "target (Os_remove p) = Some p"
| "target c = None"

definition leave :: "residue \<Rightarrow> call \<Rightarrow> state \<Rightarrow> state" where
  "leave r c s =
     (case r of
        Untouched \<Rightarrow> s
      | Leaves f \<Rightarrow> (case target c of None \<Rightarrow> s | Some p \<Rightarrow> s\<lparr>fs := (fs s)(p := f)\<rparr>))"

definition call_lib :: "world \<Rightarrow> call \<Rightarrow> (state \<Rightarrow> state) \<Rightarrow> stmt" where
  "call_lib w c effect s =
     (case w (trace s) (fs s) c of
        Returns \<Rightarrow> (None, effect (record_event c Returns s))
      | Raises e r \<Rightarrow> (Some e, leave r c (record_event c (Raises e r) s)))"

definition import_module :: "world \<Rightarrow> string \<Rightarrow> stmt" where
  "import_module w name = call_lib w (Import name) (\<lambda>s. s)"

definition os_system :: "string \<Rightarrow> stmt" where
  "os_system cmd s = (None, record_event (Os_system cmd) Returns s)"

definition os_path_exists :: "string \<Rightarrow> state \<Rightarrow> bool \<times> state" where
  "os_path_exists p s = (fs s p \<noteq> None, record_event (Path_exists p) Returns s)"

definition svg2png :: "world \<Rightarrow> string \<Rightarrow> string \<Rightarrow> int \<Rightarrow> int \<Rightarrow> stmt" where
  "svg2png w url write_to output_width output_height =
     call_lib w (Svg2png url write_to output_width output_height)
       (\<lambda>s. s\<lparr>fs := (fs s)(write_to \<mapsto> Png output_width output_height)\<rparr>)"

definition image_open :: "world \<Rightarrow> string \<Rightarrow> stmt" where
  "image_open w p s =
     (case fs s p of
        Some (Png a b) \<Rightarrow> call_lib w (Image_open p) (\<lambda>s. s\<lparr>img := Some (a, b)\<rparr>) s
      | _ \<Rightarrow>
          (let e = Exn OtherException ''cannot identify image file''
           in (Some e, record_event (Image_open p) (Raises e Untouched) s)))"

definition ico_frames :: "int \<times> int \<Rightarrow> (int \<times> int) list \<Rightarrow> (int \<times> int) list" where
  "ico_frames d sizes =
     filter (\<lambda>(a, b). a \<le> fst d \<and> b \<le> snd d \<and> a \<le> 256 \<and> b \<le> 256) sizes"

definition image_save :: "world \<Rightarrow> string \<Rightarrow> (int \<times> int) list \<Rightarrow> stmt" where
  "image_save w p sizes s =
     (case img s of
        Some d \<Rightarrow>
          call_lib w (Image_save p d sizes) (\<lambda>s. s\<lparr>fs := (fs s)(p \<mapsto> Ico (ico_frames d sizes))\<rparr>) s
      | None \<Rightarrow> (Some (Exn OtherException ''local variable img referenced before assignment''), s))"

definition os_remove :: "world \<Rightarrow> string \<Rightarrow> stmt" where
  "os_remove w p = call_lib w (Os_remove p) (\<lambda>s. s\<lparr>fs := (fs s)(p := None)\<rparr>)"

definition assign_success_count :: "int \<Rightarrow> stmt" where
  "assign_success_count n s = (None, s\<lparr>success_count := n\<rparr>)"

definition incr_success_count :: stmt where
  "incr_success_count s = (None, s\<lparr>success_count := success_count s + 1\<rparr>)"

subsection \<open>Strings\<close>

fun str_nat :: "nat \<Rightarrow> string" where
  "str_nat n =
     (if n < 10 then [''0123456789'' ! n]
      else str_nat (n div 10) @ [''0123456789'' ! (n mod 10)])"

declare str_nat.simps [simp del]

definition str_int :: "int \<Rightarrow> string" where
  "str_int i = (if i < 0 then CHR ''-'' # str_nat (nat (- i)) else str_nat (nat i))"

definition cross_mark :: string where
  "cross_mark = [CHR 0xE2, CHR 0x9D, CHR 0x8C]"

definition check_mark :: string where
  "check_mark = [CHR 0xE2, CHR 0x9C, CHR 0x93]"

definition folder_mark :: string where
  "folder_mark = [CHR 0xF0, CHR 0x9F, CHR 0x93, CHR 0x81]"

definition done_mark :: string where
  "done_mark = [CHR 0xE2, CHR 0x9C, CHR 0x85]"

definition chart_mark :: string where
  "chart_mark = [CHR 0xF0, CHR 0x9F, CHR 0x93, CHR 0x8A]"

definition memo_mark :: string where
  "memo_mark = [CHR 0xF0, CHR 0x9F, CHR 0x93, CHR 0x9D]"

definition rule70 :: string where
  "rule70 = replicate 70 CHR ''=''"

subsection \<open>Module load (lines 10 to 18)\<close>

definition install_command :: "string \<Rightarrow> string" where
  "install_command executable = executable @ '' -m pip install pillow cairosvg''"

definition module_load :: "world \<Rightarrow> string \<Rightarrow> stmt" where
  "module_load w executable =
     try_except
       (block [import_module w ''PIL'', import_module w ''cairosvg''])
       is_ImportError
       (\<lambda>e. block
          [print (cross_mark @ '' Required packages not installed''),
           print ''Installing required packages...'',
           os_system (install_command executable),
           import_module w ''PIL'',
           import_module w ''cairosvg''])"

subsection \<open>\<^verbatim>\<open>generate_png_icons\<close> (lines 20 to 113)\<close>

definition svg_path :: string where
  "svg_path = ''app/public/icons/icon.svg''"

definition icons_dir :: string where
  "icons_dir = ''app/public/icons''"

definition sizes :: "int list" where
  "sizes = [72, 96, 128, 144, 152, 192, 384, 512]"

definition temp_path :: string where
  "temp_path = ''app/public/favicon-temp.png''"

definition favicon_path :: string where
  "favicon_path = ''app/public/favicon.ico''"

definition apple_icon_path :: string where
  "apple_icon_path = ''app/public/apple-touch-icon.png''"

definition output_path :: "int \<Rightarrow> string" where
  "output_path sz = icons_dir @ ''/icon-'' @ str_int sz @ ''x'' @ str_int sz @ ''.png''"

definition generated_line :: "int \<Rightarrow> string" where
  "generated_line sz =
     ''  '' @ check_mark @ '' Generated '' @ str_int sz @ ''x'' @ str_int sz @ '' icon''"

definition failed_line :: "int \<Rightarrow> exn \<Rightarrow> string" where
  "failed_line sz e =
     ''  '' @ cross_mark @ '' Failed to generate '' @ str_int sz @ ''x'' @ str_int sz
       @ '': '' @ str_exn e"

definition convert_size :: "world \<Rightarrow> int \<Rightarrow> stmt" where
  "convert_size w sz =
     try_except
       (block
          [svg2png w svg_path (output_path sz) sz sz,
           print (generated_line sz),
           incr_success_count])
       is_Exception
       (\<lambda>e. print (failed_line sz e))"

definition favicon_ok_line :: string where
  "favicon_ok_line = ''  '' @ check_mark @ '' Generated favicon.ico''"

definition favicon_failed_line :: "exn \<Rightarrow> string" where
  "favicon_failed_line e = ''  '' @ cross_mark @ '' Failed to generate favicon: '' @ str_exn e"

definition favicon :: "world \<Rightarrow> stmt" where
  "favicon w =
     try_except
       (block
          [svg2png w svg_path temp_path 32 32,
           image_open w temp_path,
           image_save w favicon_path [(32, 32)],
           os_remove w temp_path,
           print favicon_ok_line,
           incr_success_count])
       is_Exception
       (\<lambda>e. print (favicon_failed_line e))"

definition apple_ok_line :: string where
  "apple_ok_line = ''  '' @ check_mark @ '' Generated apple-touch-icon.png''"

definition apple_failed_line :: "exn \<Rightarrow> string" where
  "apple_failed_line e =
     ''  '' @ cross_mark @ '' Failed to generate apple-touch-icon: '' @ str_exn e"

definition apple_touch_icon :: "world \<Rightarrow> stmt" where
  "apple_touch_icon w =
     try_except
       (block
          [svg2png w svg_path apple_icon_path 180 180,
           print apple_ok_line,
           incr_success_count])
       is_Exception
       (\<lambda>e. print (apple_failed_line e))"

definition not_found_line :: string where
  "not_found_line = cross_mark @ '' SVG file not found: '' @ svg_path"

definition summary_line :: "int \<Rightarrow> string" where
  "summary_line n = chart_mark @ '' Generated '' @ str_int n @ '' icons successfully''"

definition header :: stmt where
  "header =
     block [print rule70, print ''CBV SYSTEM - PNG ICON GENERATOR'', print rule70, print '''']"

definition report :: stmt where
  "report s =
     block
       [print '''',
        print rule70,
        print (done_mark @ '' ICON GENERATION COMPLETE''),
        print rule70,
        print '''',
        print (summary_line (success_count s)),
        print '''',
        print (memo_mark @ '' Next steps:''),
        print ''   1. Refresh your browser'',
        print ''   2. Check browser console for PWA install prompt'',
        print ''   3. Click install icon in address bar'',
        print '''',
        print rule70] s"

definition conversions :: "world \<Rightarrow> stmt" where
  "conversions w =
     block
       [print (folder_mark @ '' Source SVG: '' @ svg_path),
        print (folder_mark @ '' Output directory: '' @ icons_dir),
        print '''',
        assign_success_count 0,
        for_each sizes (convert_size w),
        favicon w,
        apple_touch_icon w,
        report]"

definition generate_png_icons :: "world \<Rightarrow> state \<Rightarrow> (exn + bool) \<times> state" where
  "generate_png_icons w s =
     (case header s of
        (Some e, s1) \<Rightarrow> (Inl e, s1)
      | (None, s1) \<Rightarrow>
          (case os_path_exists svg_path s1 of
             (False, s2) \<Rightarrow>
               (case print not_found_line s2 of
                  (Some e, s3) \<Rightarrow> (Inl e, s3)
                | (None, s3) \<Rightarrow> (Inr False, s3))
           | (True, s2) \<Rightarrow>
               (case conversions w s2 of
                  (Some e, s3) \<Rightarrow> (Inl e, s3)
                | (None, s3) \<Rightarrow> (Inr (0 < success_count s3), s3))))"

subsection \<open>The script's entry point (lines 115 to 121)\<close>

datatype ending = Exit int | Uncaught exn

fun exit_status :: "ending \<Rightarrow> int" where
  "exit_status (Exit n) = n"
| "exit_status (Uncaught e) = 1"

definition main_block :: "world \<Rightarrow> state \<Rightarrow> ending \<times> state" where
  "main_block w s =
     (case generate_png_icons w s of
        (Inr success, s1) \<Rightarrow> (Exit (if success then 0 else 1), s1)
      | (Inl e, s1) \<Rightarrow> (Exit 1, snd (print (cross_mark @ '' Error: '' @ str_exn e) s1)))"

definition script :: "world \<Rightarrow> string \<Rightarrow> state \<Rightarrow> ending \<times> state" where
  "script w executable s =
     (case module_load w executable s of
        (Some e, s1) \<Rightarrow> (Uncaught e, s1)
      | (None, s1) \<Rightarrow> main_block w s1)"

section \<open>Observations on runs\<close>

text \<open>
  Names for the library calls the script makes, and what a trace of events says about a
  run: which events complete an output, where a raise is reported, what a returned write
  leaves on disk.
\<close>

definition conv_call :: "int \<Rightarrow> call" where
  "conv_call sz = Svg2png svg_path (output_path sz) sz sz"

fun is_conversion :: "call \<Rightarrow> bool" where
  "is_conversion (Svg2png url p a b) = True"
| "is_conversion c = False"

fun completes :: "event \<Rightarrow> bool" where
  "completes (Svg2png url p a b, Returns) = (p \<noteq> temp_path)"
| "completes (Os_remove p, Returns) = True"
| "completes ev = False"

definition outputs_succeeded :: "event list \<Rightarrow> nat" where
  "outputs_succeeded tr = length (filter completes tr)"

fun logged :: "string list \<Rightarrow> event \<Rightarrow> bool" where
  "logged out (Svg2png url p a b, Raises e r) =
     ((if p = temp_path then favicon_failed_line e
       else if p = apple_icon_path then apple_failed_line e
       else failed_line a e) \<in> set out)"
| "logged out (Image_open p, Raises e r) = (favicon_failed_line e \<in> set out)"
| "logged out (Image_save p d z, Raises e r) = (favicon_failed_line e \<in> set out)"
| "logged out (Os_remove p, Raises e r) = (favicon_failed_line e \<in> set out)"
| "logged out ev = True"

fun kept :: "(string \<rightharpoonup> content) \<Rightarrow> event \<Rightarrow> bool" where
  "kept f (Svg2png url p a b, Returns) = (p = temp_path \<or> f p = Some (Png a b))"
| "kept f (Image_save p d z, Returns) = (f p = Some (Ico (ico_frames d z)))"
| "kept f ev = True"

definition temp_call :: call where
  "temp_call = Svg2png svg_path temp_path 32 32"

definition open_call :: call where
  "open_call = Image_open temp_path"

definition save_call :: call where
  "save_call = Image_save favicon_path (32, 32) [(32, 32)]"

definition remove_call :: call where
  "remove_call = Os_remove temp_path"

definition favicon_calls :: "call list" where
  "favicon_calls = [temp_call, open_call, save_call, remove_call]"

definition apple_call :: call where
  "apple_call = Svg2png svg_path apple_icon_path 180 180"

definition run_inv :: "call list \<Rightarrow> call set \<Rightarrow> state \<Rightarrow> bool" where
  "run_inv cs E s \<longleftrightarrow>
     success_count s = int (outputs_succeeded (trace s)) \<and>
     (\<forall>ev \<in> set (trace s). logged (stdout s) ev) \<and>
     (\<forall>ev \<in> set (trace s). kept (fs s) ev) \<and>
     filter is_conversion (map fst (trace s)) = cs \<and>
     (\<forall>ev \<in> set (trace s). fst ev \<in> E) \<and>
     (\<forall>p. (Os_remove p, Returns) \<in> set (trace s) \<longrightarrow>
        (\<forall>c \<in> set favicon_calls. (c, Returns) \<in> set (trace s)))"

definition all_conversions :: "call list" where
  "all_conversions = map conv_call sizes @ [temp_call, apple_call]"

definition all_calls :: "call set" where
  "all_calls = conv_call ` set sizes \<union> set favicon_calls \<union> {apple_call}"

fun is_preamble :: "call \<Rightarrow> bool" where
  "is_preamble (Import name) = True"
| "is_preamble (Os_system cmd) = True"
| "is_preamble (Path_exists p) = True"
| "is_preamble c = False"

definition before_loop :: "state \<Rightarrow> state" where
  "before_loop s =
     s\<lparr>stdout := stdout s @
          [folder_mark @ '' Source SVG: '' @ svg_path,
           folder_mark @ '' Output directory: '' @ icons_dir, ''''],
       success_count := 0\<rparr>"

definition checked :: "state \<Rightarrow> state" where
  "checked s =
     s\<lparr>stdout := stdout s @ [rule70, ''CBV SYSTEM - PNG ICON GENERATOR'', rule70, ''''],
       trace := trace s @ [(Path_exists svg_path, Returns)]\<rparr>"

definition disk_full :: exn where
  "disk_full = Exn OtherException ''No space left on device''"

definition world_96_fails :: world where
  "world_96_fails h f c = (if c = conv_call 96 then Raises disk_full Untouched else Returns)"

definition only_source :: "string \<rightharpoonup> content" where
  "only_source = [svg_path \<mapsto> Svg]"

definition all_conversions_fail :: world where
  "all_conversions_fail h f c = (if is_conversion c then Raises disk_full Untouched else Returns)"

definition all_return :: world where
  "all_return h f c = Returns"

text \<open>
  The two import statements of lines 11 and 12, which lines 17 and 18 repeat, and the
  state after the three statements of the \<^verbatim>\<open>except ImportError\<close> branch that precede
  the repeated imports. \<open>news s s'\<close> are the events a step from \<open>s\<close> to \<open>s'\<close> added.
\<close>

definition import_both :: "world \<Rightarrow> stmt" where
  "import_both w = block [import_module w ''PIL'', import_module w ''cairosvg'']"

definition installed :: "string \<Rightarrow> state \<Rightarrow> state" where
  "installed executable s =
     s\<lparr>stdout := stdout s @
          [cross_mark @ '' Required packages not installed'', ''Installing required packages...''],
       trace := trace s @ [(Os_system (install_command executable), Returns)]\<rparr>"

definition news :: "state \<Rightarrow> state \<Rightarrow> event list" where
  "news s s' = drop (length (trace s)) (trace s')"

fun is_import :: "call \<Rightarrow> bool" where
  "is_import (Import name) = True"
| "is_import c = False"

definition no_module :: exn where
  "no_module = Exn ImportError ''No module named PIL''"

fun is_install :: "event \<Rightarrow> bool" where
  "is_install (Os_system cmd, r) = True"
| "is_install ev = False"

definition missing_until_installed :: world where
  "missing_until_installed h f c =
     (if is_import c \<and> \<not> list_ex is_install h then Raises no_module Untouched else Returns)"

definition never_importable :: world where
  "never_importable h f c = (if is_import c then Raises no_module Untouched else Returns)"

definition denied :: exn where
  "denied = Exn OtherException ''Permission denied''"

definition save_fails :: world where
  "save_fails h f c = (if c = save_call then Raises denied Untouched else Returns)"

definition remove_fails :: world where
  "remove_fails h f c = (if c = remove_call then Raises denied Untouched else Returns)"





definition libcairo_missing :: exn where
  "libcairo_missing = Exn OtherException ''no library called cairo was found''"

definition cairo_unloadable :: world where
  "cairo_unloadable h f c =
     (if c = Import ''cairosvg'' then Raises libcairo_missing Untouched else Returns)"

section \<open>Execution lemmas\<close>

lemmas prim_defs = print_def incr_success_count_def assign_success_count_def os_system_def
  record_event_def

lemma call_lib_Returns:
  "w (trace s) (fs s) c = Returns \<Longrightarrow> call_lib w c eff s = (None, eff (record_event c Returns s))"
  by (simp add: call_lib_def)

lemma call_lib_Raises:
  "w (trace s) (fs s) c = Raises e r \<Longrightarrow>
     call_lib w c eff s = (Some e, leave r c (record_event c (Raises e r) s))"
  by (simp add: call_lib_def)

lemma convert_size_Returns:
  assumes "w (trace s) (fs s) (conv_call sz) = Returns"
  shows "convert_size w sz s =
    (None, s\<lparr>fs := (fs s)(output_path sz \<mapsto> Png sz sz),
             stdout := stdout s @ [generated_line sz],
             trace := trace s @ [(conv_call sz, Returns)],
             success_count := success_count s + 1\<rparr>)"
  using assms
  by (simp add: convert_size_def try_except_def svg2png_def call_lib_Returns conv_call_def prim_defs)

lemma convert_size_Raises:
  assumes "w (trace s) (fs s) (conv_call sz) = Raises e r"
  shows "convert_size w sz s =
    (None, (leave r (conv_call sz) (s\<lparr>trace := trace s @ [(conv_call sz, Raises e r)]\<rparr>))
             \<lparr>stdout := stdout s @ [failed_line sz e]\<rparr>)"
  using assms
  by (simp add: convert_size_def try_except_def svg2png_def call_lib_Raises conv_call_def prim_defs leave_def split: residue.splits)

lemma logged_mono: "logged out ev \<Longrightarrow> logged (out @ ls) ev"
  by (induction out ev rule: logged.induct) auto

lemma kept_upd: "target (fst ev) \<noteq> Some q \<Longrightarrow> kept (f(q := x)) ev = kept f ev"
  by (induction f ev rule: kept.induct) auto

lemma output_path_not_temp [simp]: "output_path sz \<noteq> temp_path"
  by (simp add: output_path_def temp_path_def icons_dir_def)

lemma output_path_not_apple [simp]: "output_path sz \<noteq> apple_icon_path"
  by (simp add: output_path_def apple_icon_path_def icons_dir_def)

lemma output_path_not_favicon [simp]: "output_path sz \<noteq> favicon_path"
  by (simp add: output_path_def favicon_path_def icons_dir_def)

lemmas fav_defs = temp_call_def open_call_def save_call_def remove_call_def

lemma conv_not_favicon [simp]: "conv_call sz \<notin> set favicon_calls"
  by (simp add: conv_call_def favicon_calls_def fav_defs)

lemma run_inv_print: "run_inv cs E s \<Longrightarrow> run_inv cs E (s\<lparr>stdout := stdout s @ ls\<rparr>)"
  by (simp add: run_inv_def logged_mono)

lemma convert_size_inv:
  assumes "run_inv cs E s" and "\<forall>c \<in> E. target c \<noteq> Some (output_path sz)"
  shows "fst (convert_size w sz s) = None \<and>
         run_inv (cs @ [conv_call sz]) (insert (conv_call sz) E) (snd (convert_size w sz s))"
proof (cases "w (trace s) (fs s) (conv_call sz)")
  case Returns
  have k: "kept ((fs s)(output_path sz \<mapsto> Png sz sz)) ev" if "ev \<in> set (trace s)" for ev
  proof -
    from that assms have "target (fst ev) \<noteq> Some (output_path sz)" and "kept (fs s) ev"
      by (auto simp: run_inv_def)
    then show ?thesis by (simp add: kept_upd)
  qed
  from assms(1) show ?thesis
    by (auto simp: convert_size_Returns [of w s sz, OF Returns] run_inv_def outputs_succeeded_def conv_call_def
        logged_mono k)
next
  case (Raises e r)
  have k: "kept ((fs s)(output_path sz := x)) ev" if "ev \<in> set (trace s)" for ev x
  proof -
    from that assms have "target (fst ev) \<noteq> Some (output_path sz)" and "kept (fs s) ev"
      by (auto simp: run_inv_def)
    then show ?thesis by (simp add: kept_upd)
  qed
  from assms(1) show ?thesis
    by (auto simp: convert_size_Raises [of w s sz, OF Raises] run_inv_def outputs_succeeded_def conv_call_def
        leave_def logged_mono k split: residue.splits)
qed

lemma temp_not_favicon [simp]: "temp_path \<noteq> favicon_path" "favicon_path \<noteq> temp_path"
  by (simp_all add: temp_path_def favicon_path_def)

lemma ico_frames_32 [simp]: "ico_frames (32, 32) [(32, 32)] = [(32, 32)]"
  by (simp add: ico_frames_def)

lemmas favicon_unfold = favicon_def try_except_def svg2png_def image_open_def image_save_def
  os_remove_def prim_defs fav_defs

lemma favicon_raise1:
  assumes "w (trace s) (fs s) temp_call = Raises e r"
  shows "favicon w s =
    (None, (leave r temp_call (s\<lparr>trace := trace s @ [(temp_call, Raises e r)]\<rparr>))
             \<lparr>stdout := stdout s @ [favicon_failed_line e]\<rparr>)"
  using assms
  by (simp add: favicon_unfold call_lib_Raises leave_def split: residue.splits)

lemma favicon_raise2:
  assumes "w (trace s) (fs s) temp_call = Returns"
    and "w (trace s @ [(temp_call, Returns)]) ((fs s)(temp_path \<mapsto> Png 32 32)) open_call = Raises e r"
  shows "favicon w s =
    (None, s\<lparr>fs := (fs s)(temp_path \<mapsto> Png 32 32),
             trace := trace s @ [(temp_call, Returns), (open_call, Raises e r)],
             stdout := stdout s @ [favicon_failed_line e]\<rparr>)"
  using assms
  by (simp add: favicon_unfold call_lib_Returns call_lib_Raises leave_def split: residue.splits)

lemma favicon_raise3:
  assumes "w (trace s) (fs s) temp_call = Returns"
    and "w (trace s @ [(temp_call, Returns)]) ((fs s)(temp_path \<mapsto> Png 32 32)) open_call = Returns"
    and "w (trace s @ [(temp_call, Returns), (open_call, Returns)])
        ((fs s)(temp_path \<mapsto> Png 32 32)) save_call = Raises e r"
  shows "favicon w s =
    (None, (leave r save_call (s\<lparr>fs := (fs s)(temp_path \<mapsto> Png 32 32),
             trace := trace s @ [(temp_call, Returns), (open_call, Returns), (save_call, Raises e r)],
             img := Some (32, 32)\<rparr>))\<lparr>stdout := stdout s @ [favicon_failed_line e]\<rparr>)"
  using assms
  by (simp add: favicon_unfold call_lib_Returns call_lib_Raises leave_def split: residue.splits)

lemma favicon_raise4:
  assumes "w (trace s) (fs s) temp_call = Returns"
    and "w (trace s @ [(temp_call, Returns)]) ((fs s)(temp_path \<mapsto> Png 32 32)) open_call = Returns"
    and "w (trace s @ [(temp_call, Returns), (open_call, Returns)])
        ((fs s)(temp_path \<mapsto> Png 32 32)) save_call = Returns"
    and "w (trace s @ [(temp_call, Returns), (open_call, Returns), (save_call, Returns)])
           ((fs s)(temp_path \<mapsto> Png 32 32, favicon_path \<mapsto> Ico [(32, 32)]))
           remove_call = Raises e r"
  shows "favicon w s =
    (None, (leave r remove_call (s\<lparr>fs := (fs s)(temp_path \<mapsto> Png 32 32, favicon_path \<mapsto> Ico [(32, 32)]),
             trace := trace s @ [(temp_call, Returns), (open_call, Returns), (save_call, Returns),
               (remove_call, Raises e r)],
             img := Some (32, 32)\<rparr>))\<lparr>stdout := stdout s @ [favicon_failed_line e]\<rparr>)"
  using assms
  by (simp add: favicon_unfold call_lib_Returns call_lib_Raises leave_def split: residue.splits)

lemma favicon_returns:
  assumes "w (trace s) (fs s) temp_call = Returns"
    and "w (trace s @ [(temp_call, Returns)]) ((fs s)(temp_path \<mapsto> Png 32 32)) open_call = Returns"
    and "w (trace s @ [(temp_call, Returns), (open_call, Returns)])
        ((fs s)(temp_path \<mapsto> Png 32 32)) save_call = Returns"
    and "w (trace s @ [(temp_call, Returns), (open_call, Returns), (save_call, Returns)])
           ((fs s)(temp_path \<mapsto> Png 32 32, favicon_path \<mapsto> Ico [(32, 32)]))
           remove_call = Returns"
  shows "favicon w s =
    (None, s\<lparr>fs := (fs s)(temp_path := None, favicon_path \<mapsto> Ico [(32, 32)]),
             trace := trace s @ [(temp_call, Returns), (open_call, Returns), (save_call, Returns),
               (remove_call, Returns)],
             img := Some (32, 32),
             stdout := stdout s @ [favicon_ok_line],
             success_count := success_count s + 1\<rparr>)"
  using assms
  by (simp add: favicon_unfold call_lib_Returns fun_upd_twist)

lemma favicon_shape:
  obtains (r1) e r where "w (trace s) (fs s) temp_call = Raises e r"
  | (r2) e r where "w (trace s) (fs s) temp_call = Returns"
      "w (trace s @ [(temp_call, Returns)]) ((fs s)(temp_path \<mapsto> Png 32 32)) open_call = Raises e r"
  | (r3) e r where "w (trace s) (fs s) temp_call = Returns"
      "w (trace s @ [(temp_call, Returns)]) ((fs s)(temp_path \<mapsto> Png 32 32)) open_call = Returns"
      "w (trace s @ [(temp_call, Returns), (open_call, Returns)])
        ((fs s)(temp_path \<mapsto> Png 32 32)) save_call = Raises e r"
  | (r4) e r where "w (trace s) (fs s) temp_call = Returns"
      "w (trace s @ [(temp_call, Returns)]) ((fs s)(temp_path \<mapsto> Png 32 32)) open_call = Returns"
      "w (trace s @ [(temp_call, Returns), (open_call, Returns)])
        ((fs s)(temp_path \<mapsto> Png 32 32)) save_call = Returns"
      "w (trace s @ [(temp_call, Returns), (open_call, Returns), (save_call, Returns)])
           ((fs s)(temp_path \<mapsto> Png 32 32, favicon_path \<mapsto> Ico [(32, 32)]))
         remove_call = Raises e r"
  | (ok) "w (trace s) (fs s) temp_call = Returns"
      "w (trace s @ [(temp_call, Returns)]) ((fs s)(temp_path \<mapsto> Png 32 32)) open_call = Returns"
      "w (trace s @ [(temp_call, Returns), (open_call, Returns)])
        ((fs s)(temp_path \<mapsto> Png 32 32)) save_call = Returns"
      "w (trace s @ [(temp_call, Returns), (open_call, Returns), (save_call, Returns)])
           ((fs s)(temp_path \<mapsto> Png 32 32, favicon_path \<mapsto> Ico [(32, 32)]))
         remove_call = Returns"
  by (meson outcome.exhaust)

lemma favicon_inv:
  assumes i: "run_inv cs E s"
    and t: "\<forall>c \<in> E. target c \<noteq> Some temp_path \<and> target c \<noteq> Some favicon_path"
  shows "fst (favicon w s) = None \<and>
         run_inv (cs @ [temp_call]) (E \<union> set favicon_calls) (snd (favicon w s))"
proof -
  have k: "kept ((fs s)(temp_path := x)) ev" "kept ((fs s)(favicon_path := y)) ev"
    "kept ((fs s)(temp_path := x, favicon_path := y)) ev"
    "kept ((fs s)(favicon_path := y, temp_path := x)) ev"
    if "ev \<in> set (trace s)" for ev x y
  proof -
    from that i t have "target (fst ev) \<noteq> Some temp_path" "target (fst ev) \<noteq> Some favicon_path"
      and "kept (fs s) ev"
      by (auto simp: run_inv_def)
    then show "kept ((fs s)(temp_path := x)) ev" "kept ((fs s)(favicon_path := y)) ev"
      "kept ((fs s)(temp_path := x, favicon_path := y)) ev"
      "kept ((fs s)(favicon_path := y, temp_path := x)) ev"
      by (simp_all add: kept_upd)
  qed
  show ?thesis
  proof (cases rule: favicon_shape [of w s])
    case (r1 e r)
    from i show ?thesis
      by (auto simp: favicon_raise1 [of w s, OF r1] run_inv_def outputs_succeeded_def fav_defs
          favicon_calls_def leave_def logged_mono k split: residue.splits)
  next
    case (r2 e r)
    from i show ?thesis
      by (auto simp: favicon_raise2 [of w s, OF r2] run_inv_def outputs_succeeded_def fav_defs
          favicon_calls_def leave_def logged_mono k split: residue.splits)
  next
    case (r3 e r)
    from i show ?thesis
      by (auto simp: favicon_raise3 [of w s, OF r3] run_inv_def outputs_succeeded_def fav_defs
          favicon_calls_def leave_def logged_mono k split: residue.splits)
  next
    case (r4 e r)
    from i show ?thesis
      by (auto simp: favicon_raise4 [of w s, OF r4] run_inv_def outputs_succeeded_def fav_defs
          favicon_calls_def leave_def logged_mono k split: residue.splits)
  next
    case ok
    from i show ?thesis
      by (auto simp: favicon_returns [of w s, OF ok] run_inv_def outputs_succeeded_def fav_defs
          favicon_calls_def leave_def logged_mono k split: residue.splits)
  qed
qed

lemma apple_Returns:
  assumes "w (trace s) (fs s) apple_call = Returns"
  shows "apple_touch_icon w s =
    (None, s\<lparr>fs := (fs s)(apple_icon_path \<mapsto> Png 180 180),
             stdout := stdout s @ [apple_ok_line],
             trace := trace s @ [(apple_call, Returns)],
             success_count := success_count s + 1\<rparr>)"
  using assms
  by (simp add: apple_touch_icon_def try_except_def svg2png_def call_lib_Returns apple_call_def
      prim_defs)

lemma apple_Raises:
  assumes "w (trace s) (fs s) apple_call = Raises e r"
  shows "apple_touch_icon w s =
    (None, (leave r apple_call (s\<lparr>trace := trace s @ [(apple_call, Raises e r)]\<rparr>))
             \<lparr>stdout := stdout s @ [apple_failed_line e]\<rparr>)"
  using assms
  by (simp add: apple_touch_icon_def try_except_def svg2png_def call_lib_Raises apple_call_def
      prim_defs leave_def split: residue.splits)

lemma apple_not_temp [simp]: "apple_icon_path \<noteq> temp_path"
  by (simp add: apple_icon_path_def temp_path_def)

lemma apple_inv:
  assumes "run_inv cs E s" and "\<forall>c \<in> E. target c \<noteq> Some apple_icon_path"
  shows "fst (apple_touch_icon w s) = None \<and>
         run_inv (cs @ [apple_call]) (insert apple_call E) (snd (apple_touch_icon w s))"
proof (cases "w (trace s) (fs s) apple_call")
  case Returns
  have k: "kept ((fs s)(apple_icon_path := x)) ev" if "ev \<in> set (trace s)" for ev x
  proof -
    from that assms have "target (fst ev) \<noteq> Some apple_icon_path" and "kept (fs s) ev"
      by (auto simp: run_inv_def)
    then show ?thesis by (simp add: kept_upd)
  qed
  from assms(1) show ?thesis
    by (auto simp: apple_Returns [of w s, OF Returns] run_inv_def outputs_succeeded_def apple_call_def
        favicon_calls_def fav_defs logged_mono k)
next
  case (Raises e r)
  have k: "kept ((fs s)(apple_icon_path := x)) ev" if "ev \<in> set (trace s)" for ev x
  proof -
    from that assms have "target (fst ev) \<noteq> Some apple_icon_path" and "kept (fs s) ev"
      by (auto simp: run_inv_def)
    then show ?thesis by (simp add: kept_upd)
  qed
  from assms(1) show ?thesis
    by (auto simp: apple_Raises [of w s, OF Raises] run_inv_def outputs_succeeded_def apple_call_def
        favicon_calls_def fav_defs leave_def logged_mono k split: residue.splits)
qed

lemma for_each_Cons:
  "for_each (x # xs) body s =
     (case body x s of (None, s') \<Rightarrow> for_each xs body s' | (Some e, s') \<Rightarrow> (Some e, s'))"
  unfolding for_each_def by simp

lemma for_each_Nil: "for_each [] body s = (None, s)"
  by (simp add: for_each_def)

lemma loop_inv:
  assumes "run_inv cs E s" and "distinct (map output_path szs)"
    and "\<forall>c \<in> E. \<forall>sz \<in> set szs. target c \<noteq> Some (output_path sz)"
  shows "fst (for_each szs (convert_size w) s) = None \<and>
         run_inv (cs @ map conv_call szs) (E \<union> conv_call ` set szs)
           (snd (for_each szs (convert_size w) s))"
  using assms
proof (induction szs arbitrary: cs E s)
  case Nil
  then show ?case by (simp add: for_each_Nil)
next
  case (Cons sz szs)
  let ?s = "snd (convert_size w sz s)"
  from Cons.prems have step: "fst (convert_size w sz s) = None"
    "run_inv (cs @ [conv_call sz]) (insert (conv_call sz) E) ?s"
    using convert_size_inv [of cs E s sz w] by auto
  have "\<forall>c \<in> insert (conv_call sz) E. \<forall>sz' \<in> set szs. target c \<noteq> Some (output_path sz')"
    using Cons.prems by (auto simp: conv_call_def)
  with Cons.IH [OF step(2)] Cons.prems
  have "fst (for_each szs (convert_size w) ?s) = None \<and>
        run_inv ((cs @ [conv_call sz]) @ map conv_call szs)
          (insert (conv_call sz) E \<union> conv_call ` set szs)
          (snd (for_each szs (convert_size w) ?s))"
    by simp
  moreover have "for_each (sz # szs) (convert_size w) s = for_each szs (convert_size w) ?s"
    using step(1) by (cases "convert_size w sz s") (auto simp: for_each_Cons)
  ultimately show ?case by simp
qed

lemma preamble_facts:
  assumes "is_preamble (fst ev)"
  shows "\<not> completes ev" "logged out ev" "kept f ev" "\<not> is_conversion (fst ev)"
    "target (fst ev) = None" "ev \<noteq> (Os_remove p, r)"
  using assms by (cases ev; cases "fst ev"; auto)+

lemma block_Cons_None: "fst (c s) = None \<Longrightarrow> block (c # cs) s = block cs (snd (c s))"
  by (cases "c s") auto

lemma str_int_sizes:
  "map str_int sizes = [''72'', ''96'', ''128'', ''144'', ''152'', ''192'', ''384'', ''512'']"
  by (simp add: sizes_def str_int_def str_nat.simps)

lemma output_paths:
  "map output_path sizes =
    [''app/public/icons/icon-72x72.png'', ''app/public/icons/icon-96x96.png'',
     ''app/public/icons/icon-128x128.png'', ''app/public/icons/icon-144x144.png'',
     ''app/public/icons/icon-152x152.png'', ''app/public/icons/icon-192x192.png'',
     ''app/public/icons/icon-384x384.png'', ''app/public/icons/icon-512x512.png'']"
  by (simp add: sizes_def output_path_def icons_dir_def str_int_def str_nat.simps)

lemma distinct_output_paths: "distinct (map output_path sizes)"
  unfolding output_paths by simp

lemma report_result:
  "fst (report s) = None \<and> fs (snd (report s)) = fs s \<and> trace (snd (report s)) = trace s \<and>
   success_count (snd (report s)) = success_count s \<and>
   (\<exists>ls. stdout (snd (report s)) = stdout s @ ls \<and> summary_line (success_count s) \<in> set ls)"
  by (simp add: report_def print_def)

lemma report_inv: "run_inv cs E s \<Longrightarrow> run_inv cs E (snd (report s))"
  using report_result [of s] by (auto simp: run_inv_def logged_mono)

lemma conversions_unfold:
  "conversions w s =
     block [for_each sizes (convert_size w), favicon w, apple_touch_icon w, report] (before_loop s)"
  by (simp add: conversions_def before_loop_def print_def assign_success_count_def)

lemma conversions_inv:
  assumes pre: "\<forall>ev \<in> set (trace s). is_preamble (fst ev)"
  shows "fst (conversions w s) = None \<and>
         run_inv all_conversions (fst ` set (trace s) \<union> all_calls) (snd (conversions w s)) \<and>
         summary_line (success_count (snd (conversions w s))) \<in> set (stdout (snd (conversions w s)))"
proof -
  let ?s0 = "before_loop s"
  let ?s1 = "snd (for_each sizes (convert_size w) ?s0)"
  let ?s2 = "snd (favicon w ?s1)"
  let ?s3 = "snd (apple_touch_icon w ?s2)"
  let ?s4 = "snd (report ?s3)"
  let ?E0 = "fst ` set (trace s)"
  let ?E1 = "?E0 \<union> conv_call ` set sizes"
  let ?E2 = "?E1 \<union> set favicon_calls"
  have t0: "target c = None" if "c \<in> ?E0" for c
    using that pre preamble_facts(5) by auto
  have t1: "target a = None" if "(a, b) \<in> set (trace s)" for a b
    using that t0 [of a] by force
  have "filter completes (trace s) = []"
    using pre preamble_facts(1) by (auto simp: filter_empty_conv)
  moreover have "filter is_conversion (map fst (trace s)) = []"
    using pre preamble_facts(4) by (auto simp: filter_empty_conv)
  ultimately have i0: "run_inv [] ?E0 ?s0"
    using pre preamble_facts(2,3,6) by (auto simp: run_inv_def before_loop_def outputs_succeeded_def)
  have l: "fst (for_each sizes (convert_size w) ?s0) = None"
    and i1: "run_inv ([] @ map conv_call sizes) ?E1 ?s1"
  proof -
    have "\<forall>c \<in> ?E0. \<forall>sz \<in> set sizes. target c \<noteq> Some (output_path sz)"
      using t0 by simp
    from loop_inv [OF i0 distinct_output_paths this, of w]
    show "fst (for_each sizes (convert_size w) ?s0) = None"
      and "run_inv ([] @ map conv_call sizes) ?E1 ?s1"
      by simp_all
  qed
  have f: "fst (favicon w ?s1) = None"
    and i2: "run_inv (([] @ map conv_call sizes) @ [temp_call]) ?E2 ?s2"
  proof -
    have "\<forall>c \<in> ?E1. target c \<noteq> Some temp_path \<and> target c \<noteq> Some favicon_path"
      using t1 by (auto simp: conv_call_def)
    from favicon_inv [OF i1 this, of w]
    show "fst (favicon w ?s1) = None"
      and "run_inv (([] @ map conv_call sizes) @ [temp_call]) ?E2 ?s2"
      by simp_all
  qed
  have a: "fst (apple_touch_icon w ?s2) = None"
    and i3: "run_inv ((([] @ map conv_call sizes) @ [temp_call]) @ [apple_call]) (insert apple_call ?E2) ?s3"
  proof -
    have "apple_icon_path \<noteq> favicon_path" "temp_path \<noteq> apple_icon_path"
      by (simp_all add: apple_icon_path_def favicon_path_def temp_path_def)
    then have "\<forall>c \<in> ?E2. target c \<noteq> Some apple_icon_path"
      using t1 by (auto simp: conv_call_def favicon_calls_def fav_defs)
    from apple_inv [OF i2 this, of w]
    show "fst (apple_touch_icon w ?s2) = None"
      and "run_inv ((([] @ map conv_call sizes) @ [temp_call]) @ [apple_call]) (insert apple_call ?E2) ?s3"
      by simp_all
  qed
  have r: "fst (report ?s3) = None"
    using report_result [of ?s3] by blast
  have eq: "conversions w s = (None, ?s4)"
    unfolding conversions_unfold
    by (simp only: block_Cons_None [of "for_each sizes (convert_size w)" ?s0, OF l]
        block_Cons_None [of "favicon w" ?s1, OF f]
        block_Cons_None [of "apple_touch_icon w" ?s2, OF a]
        block_Cons_None [of report ?s3, OF r] block.simps(1))
  have "insert apple_call ?E2 = ?E0 \<union> all_calls"
    by (auto simp: all_calls_def)
  with report_inv [OF i3] have i4: "run_inv all_conversions (?E0 \<union> all_calls) ?s4"
    by (simp add: all_conversions_def)
  have "summary_line (success_count ?s4) \<in> set (stdout ?s4)"
    using report_result [of ?s3] by auto
  with eq i4 show ?thesis by simp
qed

lemma generate_absent:
  assumes "fs s svg_path = None"
  shows "generate_png_icons w s =
    (Inr False, s\<lparr>stdout := stdout s @
        [rule70, ''CBV SYSTEM - PNG ICON GENERATOR'', rule70, '''', not_found_line],
       trace := trace s @ [(Path_exists svg_path, Returns)]\<rparr>)"
  using assms
  by (simp add: generate_png_icons_def header_def print_def os_path_exists_def record_event_def)

lemma generate_present:
  assumes "fs s svg_path \<noteq> None"
  shows "generate_png_icons w s =
    (case conversions w (checked s) of
       (Some e, s3) \<Rightarrow> (Inl e, s3)
     | (None, s3) \<Rightarrow> (Inr (0 < success_count s3), s3))"
  using assms
  by (auto simp: generate_png_icons_def header_def print_def os_path_exists_def record_event_def
      checked_def)

lemma generate_inv:
  assumes "fs s svg_path \<noteq> None" and "\<forall>ev \<in> set (trace s). is_preamble (fst ev)"
  shows "fst (generate_png_icons w s) = Inr (0 < success_count (snd (generate_png_icons w s)))"
    and "run_inv all_conversions (fst ` set (trace (checked s)) \<union> all_calls)
           (snd (generate_png_icons w s))"
    and "summary_line (success_count (snd (generate_png_icons w s)))
           \<in> set (stdout (snd (generate_png_icons w s)))"
proof -
  have pre: "\<forall>ev \<in> set (trace (checked s)). is_preamble (fst ev)"
    using assms(2) by (simp add: checked_def)
  obtain s3 where c: "conversions w (checked s) = (None, s3)"
    using conversions_inv [OF pre, of w] by (cases "conversions w (checked s)") auto
  then have g: "generate_png_icons w s = (Inr (0 < success_count s3), s3)"
    by (simp add: generate_present [OF assms(1)])
  from conversions_inv [OF pre, of w] c g
  show "fst (generate_png_icons w s) = Inr (0 < success_count (snd (generate_png_icons w s)))"
    and "run_inv all_conversions (fst ` set (trace (checked s)) \<union> all_calls)
           (snd (generate_png_icons w s))"
    and "summary_line (success_count (snd (generate_png_icons w s)))
           \<in> set (stdout (snd (generate_png_icons w s)))"
    by simp_all
qed

lemma checked_preamble:
  "\<forall>ev \<in> set (trace s). is_preamble (fst ev) \<Longrightarrow>
   c \<in> fst ` set (trace (checked s)) \<Longrightarrow> is_preamble c"
  by (auto simp: checked_def)

lemma conv_call_eq [simp]: "conv_call a = conv_call b \<longleftrightarrow> a = b"
  by (auto simp: conv_call_def)

lemma call_distinct [simp]:
  "conv_call a \<noteq> temp_call" "conv_call a \<noteq> apple_call" "conv_call a \<noteq> open_call"
  "conv_call a \<noteq> save_call" "conv_call a \<noteq> remove_call"
  "temp_call \<noteq> conv_call a" "apple_call \<noteq> conv_call a" "open_call \<noteq> conv_call a"
  "save_call \<noteq> conv_call a" "remove_call \<noteq> conv_call a"
  "temp_call \<noteq> apple_call" "apple_call \<noteq> temp_call"
  using output_path_not_temp [of a] output_path_not_apple [of a]
    output_path_not_temp [of a, symmetric] output_path_not_apple [of a, symmetric]
  by (auto simp: conv_call_def fav_defs apple_call_def)

lemma output_path_values:
  "output_path 72 = ''app/public/icons/icon-72x72.png''"
  "output_path 96 = ''app/public/icons/icon-96x96.png''"
  "output_path 128 = ''app/public/icons/icon-128x128.png''"
  "output_path 144 = ''app/public/icons/icon-144x144.png''"
  "output_path 152 = ''app/public/icons/icon-152x152.png''"
  "output_path 192 = ''app/public/icons/icon-192x192.png''"
  "output_path 384 = ''app/public/icons/icon-384x384.png''"
  "output_path 512 = ''app/public/icons/icon-512x512.png''"
  using output_paths by (simp_all add: sizes_def)

lemmas run_simps = generate_present conversions_unfold before_loop_def checked_def init_def
  block_Cons_None for_each_Cons for_each_Nil convert_size_Returns convert_size_Raises
  favicon_returns favicon_raise1 favicon_raise2 favicon_raise3 favicon_raise4
  apple_Returns apple_Raises report_def print_def leave_def sizes_def

lemma main_block_present:
  assumes "fs s svg_path \<noteq> None" and "\<forall>ev \<in> set (trace s). is_preamble (fst ev)"
  shows "main_block w s =
    (Exit (if 0 < success_count (snd (generate_png_icons w s)) then 0 else 1),
     snd (generate_png_icons w s))"
  using generate_inv(1) [OF assms, of w]
  by (cases "generate_png_icons w s") (simp add: main_block_def)

lemma run_calls:
  assumes "fs s svg_path \<noteq> None" and "\<forall>ev \<in> set (trace s). is_preamble (fst ev)"
    and "(c, r) \<in> set (trace (snd (generate_png_icons w s)))"
  shows "is_preamble c \<or> c \<in> all_calls"
proof -
  from generate_inv(2) [OF assms(1,2), of w]
  have "\<forall>ev \<in> set (trace (snd (generate_png_icons w s))).
      fst ev \<in> fst ` set (trace (checked s)) \<union> all_calls"
    by (simp add: run_inv_def)
  with assms(3) have "fst (c, r) \<in> fst ` set (trace (checked s)) \<union> all_calls"
    by (rule bspec [rotated])
  then have "c \<in> fst ` set (trace (checked s)) \<union> all_calls"
    by simp
  then show ?thesis
    using checked_preamble [OF assms(2)] by blast
qed

lemma is_conversion_calls [simp]:
  "is_conversion (conv_call sz)" "is_conversion temp_call" "is_conversion apple_call"
  "\<not> is_conversion open_call" "\<not> is_conversion save_call" "\<not> is_conversion remove_call"
  by (simp_all add: conv_call_def fav_defs apple_call_def)

lemmas main_simps = main_block_present run_simps

lemma import_both_cases:
  obtains (first) e r where "w (trace s) (fs s) (Import ''PIL'') = Raises e r"
      "import_both w s = (Some e, s\<lparr>trace := trace s @ [(Import ''PIL'', Raises e r)]\<rparr>)"
  | (second) e r where "w (trace s) (fs s) (Import ''PIL'') = Returns"
      "w (trace s @ [(Import ''PIL'', Returns)]) (fs s) (Import ''cairosvg'') = Raises e r"
      "import_both w s = (Some e, s\<lparr>trace := trace s @
         [(Import ''PIL'', Returns), (Import ''cairosvg'', Raises e r)]\<rparr>)"
  | (both) "w (trace s) (fs s) (Import ''PIL'') = Returns"
      "w (trace s @ [(Import ''PIL'', Returns)]) (fs s) (Import ''cairosvg'') = Returns"
      "import_both w s = (None, s\<lparr>trace := trace s @
         [(Import ''PIL'', Returns), (Import ''cairosvg'', Returns)]\<rparr>)"
proof (cases "w (trace s) (fs s) (Import ''PIL'')")
  case (Raises e r)
  then have "import_both w s = (Some e, s\<lparr>trace := trace s @ [(Import ''PIL'', Raises e r)]\<rparr>)"
    by (simp add: import_both_def import_module_def call_lib_def record_event_def leave_def
        split: residue.splits)
  with Raises show ?thesis by (rule first)
next
  case Returns
  show ?thesis
  proof (cases "w (trace s @ [(Import ''PIL'', Returns)]) (fs s) (Import ''cairosvg'')")
    case (Raises e r)
    with Returns have "import_both w s = (Some e, s\<lparr>trace := trace s @
         [(Import ''PIL'', Returns), (Import ''cairosvg'', Raises e r)]\<rparr>)"
      by (simp add: import_both_def import_module_def call_lib_def record_event_def leave_def
          split: residue.splits)
    with Returns Raises show ?thesis by (rule second)
  next
    case R2: Returns
    with Returns have "import_both w s = (None, s\<lparr>trace := trace s @
         [(Import ''PIL'', Returns), (Import ''cairosvg'', Returns)]\<rparr>)"
      by (simp add: import_both_def import_module_def call_lib_def record_event_def)
    with Returns R2 show ?thesis by (rule both)
  qed
qed


lemma install_then_retry:
  "block [print (cross_mark @ '' Required packages not installed''),
          print ''Installing required packages...'',
          os_system (install_command executable),
          import_module w ''PIL'', import_module w ''cairosvg''] s1 =
   import_both w (installed executable s1)"
  by (simp add: import_both_def installed_def print_def os_system_def record_event_def)

lemma module_load_unfold:
  "module_load w executable s =
     (case import_both w s of
        (None, s1) \<Rightarrow> (None, s1)
      | (Some e, s1) \<Rightarrow>
          if is_ImportError e then import_both w (installed executable s1) else (Some e, s1))"
  unfolding module_load_def try_except_def install_then_retry import_both_def [symmetric]
  by (rule refl)

lemma import_both_fs [simp]: "fs (snd (import_both w s)) = fs s"
  by (cases rule: import_both_cases [of w s]) simp_all

lemma import_both_stdout [simp]: "stdout (snd (import_both w s)) = stdout s"
  by (cases rule: import_both_cases [of w s]) simp_all

lemma import_both_conversions [simp]:
  "filter is_conversion (map fst (trace (snd (import_both w s)))) =
     filter is_conversion (map fst (trace s))"
  by (cases rule: import_both_cases [of w s]) simp_all

lemma import_both_preamble:
  "\<forall>ev \<in> set (trace s). is_preamble (fst ev) \<Longrightarrow>
   \<forall>ev \<in> set (trace (snd (import_both w s))). is_preamble (fst ev)"
  by (cases rule: import_both_cases [of w s]) simp_all

lemma installed_simps [simp]:
  "fs (installed x s) = fs s"
  "trace (installed x s) = trace s @ [(Os_system (install_command x), Returns)]"
  "stdout (installed x s) = stdout s @
     [cross_mark @ '' Required packages not installed'', ''Installing required packages...'']"
  by (simp_all add: installed_def)

lemma module_load_alt:
  "module_load w x s = import_both w s \<or>
   module_load w x s = import_both w (installed x (snd (import_both w s)))"
proof (cases "import_both w s")
  case (Pair a b)
  show ?thesis
  proof (cases a)
    case None
    with Pair show ?thesis by (simp add: module_load_unfold)
  next
    case (Some e)
    with Pair show ?thesis by (simp add: module_load_unfold)
  qed
qed

lemma import_both_news:
  "trace (snd (import_both w s)) = trace s @ news s (snd (import_both w s)) \<and>
   news s (snd (import_both w s)) \<noteq> [] \<and>
   fst (hd (news s (snd (import_both w s)))) = Import ''PIL'' \<and>
   (\<forall>ev \<in> set (news s (snd (import_both w s))). is_import (fst ev))"
  by (cases rule: import_both_cases [of w s]) (simp_all add: news_def)

lemma module_load_fs: "fs (snd (module_load w x s)) = fs s"
  using module_load_alt [of w x s] by (elim disjE) simp_all

lemma module_load_conversions:
  "filter is_conversion (map fst (trace (snd (module_load w x s)))) =
     filter is_conversion (map fst (trace s))"
  using module_load_alt [of w x s] by (elim disjE) simp_all

lemma module_load_preamble:
  assumes "\<forall>ev \<in> set (trace s). is_preamble (fst ev)"
  shows "\<forall>ev \<in> set (trace (snd (module_load w x s))). is_preamble (fst ev)"
proof -
  have 1: "\<forall>ev \<in> set (trace (snd (import_both w s))). is_preamble (fst ev)"
    using assms by (rule import_both_preamble)
  then have "\<forall>ev \<in> set (trace (installed x (snd (import_both w s)))). is_preamble (fst ev)"
    by simp
  then have 2: "\<forall>ev \<in> set (trace (snd (import_both w (installed x (snd (import_both w s)))))).
      is_preamble (fst ev)"
    by (rule import_both_preamble)
  from module_load_alt [of w x s] 1 2 show ?thesis
    by (elim disjE) simp_all
qed

lemma news_append: "trace s' = trace s @ xs \<Longrightarrow> news s s' = xs"
  by (simp add: news_def)

lemma is_import_preamble: "is_import c \<Longrightarrow> is_preamble c"
  by (cases c) simp_all

lemma module_load_news:
  "trace (snd (module_load w x s)) = trace s @ news s (snd (module_load w x s)) \<and>
   (\<forall>ev \<in> set (news s (snd (module_load w x s))). is_preamble (fst ev))"
proof -
  let ?s1 = "snd (import_both w s)"
  let ?s2 = "installed x ?s1"
  let ?s3 = "snd (import_both w ?s2)"
  note n1 = import_both_news [of w s]
  note n2 = import_both_news [of w ?s2]
  have p1: "\<forall>ev \<in> set (news s ?s1). is_preamble (fst ev)"
    using n1 by (simp add: is_import_preamble)
  have p2: "\<forall>ev \<in> set (news ?s2 ?s3). is_preamble (fst ev)"
    using n2 by (simp add: is_import_preamble)
  have t3: "trace ?s3 =
      trace s @ (news s ?s1 @ [(Os_system (install_command x), Returns)] @ news ?s2 ?s3)"
  proof -
    have "trace ?s3 = trace ?s2 @ news ?s2 ?s3"
      using n2 by (rule conjunct1)
    also have "trace ?s2 = trace ?s1 @ [(Os_system (install_command x), Returns)]"
      by simp
    also have "trace ?s1 = trace s @ news s ?s1"
      using n1 by (rule conjunct1)
    finally show ?thesis by simp
  qed
  have e3: "news s ?s3 = news s ?s1 @ [(Os_system (install_command x), Returns)] @ news ?s2 ?s3"
    using t3 by (rule news_append)
  from module_load_alt [of w x s] show ?thesis
  proof
    assume "module_load w x s = import_both w s"
    with n1 p1 show ?thesis by simp
  next
    assume m: "module_load w x s = import_both w ?s2"
    have "trace ?s3 = trace s @ news s ?s3"
      unfolding e3 by (rule t3)
    moreover have "\<forall>ev \<in> set (news s ?s3). is_preamble (fst ev)"
      unfolding e3 using p1 p2 by auto
    ultimately show ?thesis
      unfolding m by (rule conjI)
  qed
qed

lemma main_block_absent:
  assumes "fs s svg_path = None"
  shows "main_block w s =
    (Exit 1, s\<lparr>stdout := stdout s @
        [rule70, ''CBV SYSTEM - PNG ICON GENERATOR'', rule70, '''', not_found_line],
       trace := trace s @ [(Path_exists svg_path, Returns)]\<rparr>)"
  by (simp add: main_block_def generate_absent [OF assms])

lemma not_found_line_value:
  "not_found_line = cross_mark @ '' SVG file not found: app/public/icons/icon.svg''"
  by (simp add: not_found_line_def svg_path_def)

lemma leave_simps [simp]:
  "trace (leave r c s) = trace s" "stdout (leave r c s) = stdout s"
  "success_count (leave r c s) = success_count s" "img (leave r c s) = img s"
  by (simp_all add: leave_def split: residue.splits option.splits)

lemma leave_other: "target c \<noteq> Some p \<Longrightarrow> fs (leave r c s) p = fs s p"
  by (simp add: leave_def split: residue.splits option.splits)

lemma favicon_outcomes:
  fixes w :: world and s s' :: state
  assumes s': "s' = snd (favicon w s)"
  obtains (r1) e r where "news s s' = [(temp_call, Raises e r)]"
      "success_count s' = success_count s" "stdout s' = stdout s @ [favicon_failed_line e]"
      "fs s' favicon_path = fs s favicon_path"
  | (r2) e r where "news s s' = [(temp_call, Returns), (open_call, Raises e r)]"
      "success_count s' = success_count s" "stdout s' = stdout s @ [favicon_failed_line e]"
      "fs s' = (fs s)(temp_path \<mapsto> Png 32 32)"
  | (r3) e r where
      "news s s' = [(temp_call, Returns), (open_call, Returns), (save_call, Raises e r)]"
      "success_count s' = success_count s" "stdout s' = stdout s @ [favicon_failed_line e]"
      "fs s' temp_path = Some (Png 32 32)"
  | (r4) e r where
      "news s s' = [(temp_call, Returns), (open_call, Returns), (save_call, Returns),
         (remove_call, Raises e r)]"
      "success_count s' = success_count s" "stdout s' = stdout s @ [favicon_failed_line e]"
      "fs s' favicon_path = Some (Ico [(32, 32)])"
  | (ok)
      "news s s' = [(temp_call, Returns), (open_call, Returns), (save_call, Returns),
         (remove_call, Returns)]"
      "success_count s' = success_count s + 1" "stdout s' = stdout s @ [favicon_ok_line]"
      "fs s' = (fs s)(temp_path := None, favicon_path \<mapsto> Ico [(32, 32)])"
proof (cases rule: favicon_shape [of w s])
  case (r1 e r)
  show ?thesis
    by (rule that(1) [of e r])
      (simp_all add: s' favicon_raise1 [of w s, OF r1] news_def leave_other temp_call_def)
next
  case (r2 e r)
  show ?thesis
    by (rule that(2) [of e r]) (simp_all add: s' favicon_raise2 [of w s, OF r2] news_def)
next
  case (r3 e r)
  show ?thesis
    by (rule that(3) [of e r])
      (simp_all add: s' favicon_raise3 [of w s, OF r3] news_def leave_other save_call_def)
next
  case (r4 e r)
  show ?thesis
    by (rule that(4) [of e r])
      (simp_all add: s' favicon_raise4 [of w s, OF r4] news_def leave_other remove_call_def)
next
  case ok
  show ?thesis
    by (rule that(5)) (simp_all add: s' favicon_returns [of w s, OF ok] news_def)
qed

lemma favicon_trace:
  "fst (favicon w s) = None \<and>
   trace (snd (favicon w s)) = trace s @ news s (snd (favicon w s))"
proof (cases rule: favicon_shape [of w s])
  case (r1 e r)
  show ?thesis by (simp add: favicon_raise1 [of w s, OF r1] news_def)
next
  case (r2 e r)
  show ?thesis by (simp add: favicon_raise2 [of w s, OF r2] news_def)
next
  case (r3 e r)
  show ?thesis by (simp add: favicon_raise3 [of w s, OF r3] news_def)
next
  case (r4 e r)
  show ?thesis by (simp add: favicon_raise4 [of w s, OF r4] news_def)
next
  case ok
  show ?thesis by (simp add: favicon_returns [of w s, OF ok] news_def)
qed

lemma favicon_calls_distinct [simp]:
  "temp_call \<noteq> open_call" "temp_call \<noteq> save_call" "temp_call \<noteq> remove_call"
  "open_call \<noteq> temp_call" "open_call \<noteq> save_call" "open_call \<noteq> remove_call"
  "save_call \<noteq> temp_call" "save_call \<noteq> open_call" "save_call \<noteq> remove_call"
  "remove_call \<noteq> temp_call" "remove_call \<noteq> open_call" "remove_call \<noteq> save_call"
  by (simp_all add: fav_defs)

lemma favicon_call_values:
  "temp_call = Svg2png ''app/public/icons/icon.svg'' ''app/public/favicon-temp.png'' 32 32"
  "open_call = Image_open ''app/public/favicon-temp.png''"
  "save_call = Image_save ''app/public/favicon.ico'' (32, 32) [(32, 32)]"
  "remove_call = Os_remove ''app/public/favicon-temp.png''"
  by (simp_all add: fav_defs svg_path_def temp_path_def favicon_path_def)

lemma apple_call_distinct [simp]:
  "apple_call \<noteq> open_call" "apple_call \<noteq> save_call" "apple_call \<noteq> remove_call"
  "open_call \<noteq> apple_call" "save_call \<noteq> apple_call" "remove_call \<noteq> apple_call"
  by (simp_all add: fav_defs apple_call_def)






lemma news_same [simp]: "trace s' = trace s \<Longrightarrow> news s s' = []"
  by (simp add: news_def)























lemma source_not_output [simp]:
  "output_path sz \<noteq> svg_path" "temp_path \<noteq> svg_path" "favicon_path \<noteq> svg_path"
  "apple_icon_path \<noteq> svg_path" "svg_path \<noteq> output_path sz" "svg_path \<noteq> temp_path"
  "svg_path \<noteq> favicon_path" "svg_path \<noteq> apple_icon_path"
  by (simp_all add: output_path_def svg_path_def temp_path_def favicon_path_def
      apple_icon_path_def icons_dir_def)

lemma paths_distinct [simp]:
  "favicon_path \<noteq> output_path sz" "temp_path \<noteq> output_path sz"
  "apple_icon_path \<noteq> output_path sz" "apple_icon_path \<noteq> favicon_path"
  "favicon_path \<noteq> apple_icon_path" "temp_path \<noteq> apple_icon_path"
  by (simp_all add: output_path_def temp_path_def favicon_path_def apple_icon_path_def
      icons_dir_def)






lemma completes_calls:
  "completes (conv_call sz, Returns)" "\<not> completes (temp_call, Returns)"
  "\<not> completes (open_call, r)" "\<not> completes (save_call, r)"
  "completes (remove_call, Returns)" "completes (apple_call, Returns)"
  by (simp_all add: conv_call_def fav_defs apple_call_def)

lemma completes_cases:
  assumes "is_preamble c \<or> c \<in> all_calls"
  shows "completes (c, r) \<longleftrightarrow>
    r = Returns \<and> ((\<exists>sz \<in> set sizes. c = conv_call sz) \<or> c = remove_call \<or> c = apple_call)"
proof (cases r)
  case Returns
  from assms show ?thesis
  proof
    assume p: "is_preamble c"
    then have "\<not> completes (c, r)"
      using preamble_facts(1) [of "(c, r)"] by simp
    moreover from p have "c \<noteq> conv_call sz" for sz
      by (auto simp: conv_call_def)
    moreover from p have "c \<noteq> remove_call" "c \<noteq> apple_call"
      by (auto simp: remove_call_def apple_call_def)
    ultimately show ?thesis by blast
  next
    assume "c \<in> all_calls"
    then consider sz where "sz \<in> set sizes" "c = conv_call sz" | "c = temp_call"
      | "c = open_call" | "c = save_call" | "c = remove_call" | "c = apple_call"
      by (auto simp: all_calls_def favicon_calls_def)
    then show ?thesis
      using Returns by cases (auto simp: completes_calls)
  qed
next
  case (Raises e x)
  then show ?thesis by (cases c) simp_all
qed

section \<open>Properties of the script\<close>

text \<open>
  Claim C2. Each size is converted inside its own \<^verbatim>\<open>try/except\<close>: whatever the library
  calls do, \<^verbatim>\<open>generate_png_icons\<close> returns normally, the ten rasterizations (eight sizes,
  the favicon's temporary raster, the touch icon) are all attempted in order, and every
  raise is reported on the console by the line of its own handler: two spaces, the cross
  mark, \<^verbatim>\<open>Failed to generate\<close>, the item (for a size, \<^verbatim>\<open>SxS\<close>), a colon and the text of
  the exception.
\<close>

theorem per_item_errors_isolated:
  fixes w :: world and s :: state
  assumes "fs s svg_path \<noteq> None" and "\<forall>ev \<in> set (trace s). is_preamble (fst ev)"
  defines "s' \<equiv> snd (generate_png_icons w s)"
  shows "fst (generate_png_icons w s) = Inr (0 < success_count s') \<and>
         filter is_conversion (map fst (trace s')) =
           map conv_call sizes @ [temp_call, apple_call] \<and>
         (\<forall>sz \<in> set sizes. \<forall>e r. (conv_call sz, Raises e r) \<in> set (trace s') \<longrightarrow>
            ''  '' @ cross_mark @ '' Failed to generate '' @ str_int sz @ ''x'' @ str_int sz
              @ '': '' @ str_exn e \<in> set (stdout s')) \<and>
         (\<forall>c \<in> set favicon_calls. \<forall>e r. (c, Raises e r) \<in> set (trace s') \<longrightarrow>
            ''  '' @ cross_mark @ '' Failed to generate favicon: '' @ str_exn e
              \<in> set (stdout s')) \<and>
         (\<forall>e r. (apple_call, Raises e r) \<in> set (trace s') \<longrightarrow>
            ''  '' @ cross_mark @ '' Failed to generate apple-touch-icon: '' @ str_exn e
              \<in> set (stdout s'))"
proof -
  note g = generate_inv [OF assms(1,2), of w, folded s'_def]
  have lg: "logged (stdout s') ev" if "ev \<in> set (trace s')" for ev
    using g(2) that by (simp add: run_inv_def)
  have 1: "''  '' @ cross_mark @ '' Failed to generate '' @ str_int sz @ ''x'' @ str_int sz
      @ '': '' @ str_exn e \<in> set (stdout s')"
    if "(conv_call sz, Raises e r) \<in> set (trace s')" for sz e r
    using lg [OF that] by (simp add: conv_call_def failed_line_def)
  have 2: "''  '' @ cross_mark @ '' Failed to generate favicon: '' @ str_exn e
      \<in> set (stdout s')"
    if "c \<in> set favicon_calls" "(c, Raises e r) \<in> set (trace s')" for c e r
    using lg [OF that(2)] that(1)
    by (auto simp: favicon_calls_def fav_defs favicon_failed_line_def)
  have 3: "''  '' @ cross_mark @ '' Failed to generate apple-touch-icon: '' @ str_exn e
      \<in> set (stdout s')"
    if "(apple_call, Raises e r) \<in> set (trace s')" for e r
    using lg [OF that] by (simp add: apple_call_def apple_failed_line_def)
  have 4: "fst (generate_png_icons w s) = Inr (0 < success_count s')"
    by (rule g(1))
  have 5: "filter is_conversion (map fst (trace s')) = map conv_call sizes @ [temp_call, apple_call]"
    using g(2) by (simp add: run_inv_def all_conversions_def)
  from 1 2 3 4 5 show ?thesis
    by blast
qed

theorem per_item_errors_isolated_witness:
  "fs (init only_source) svg_path \<noteq> None \<and> trace (init only_source) = [] \<and>
   (Svg2png ''app/public/icons/icon.svg'' ''app/public/icons/icon-96x96.png'' 96 96,
    Raises (Exn OtherException ''No space left on device'') Untouched)
     \<in> set (trace (snd (generate_png_icons world_96_fails (init only_source)))) \<and>
   [CHR '' '', CHR '' '', CHR 0xE2, CHR 0x9D, CHR 0x8C]
     @ '' Failed to generate 96x96: No space left on device''
     \<in> set (stdout (snd (generate_png_icons world_96_fails (init only_source)))) \<and>
   filter is_conversion
     (map fst (trace (snd (generate_png_icons world_96_fails (init only_source))))) =
     map conv_call sizes @ [temp_call, apple_call] \<and>
   [CHR '' '', CHR '' '', CHR 0xE2, CHR 0x9D, CHR 0x8C]
     @ '' Failed to generate favicon: No space left on device''
     \<in> set (stdout (snd (generate_png_icons all_conversions_fail (init only_source)))) \<and>
   [CHR '' '', CHR '' '', CHR 0xE2, CHR 0x9D, CHR 0x8C]
     @ '' Failed to generate apple-touch-icon: No space left on device''
     \<in> set (stdout (snd (generate_png_icons all_conversions_fail (init only_source)))) \<and>
   fst (generate_png_icons all_conversions_fail (init only_source)) = Inr False"
proof -
  have h1: "fs (init only_source) svg_path \<noteq> None"
    by (simp add: init_def only_source_def)
  have h0: "trace (init only_source) = []"
    by (simp add: init_def)
  have h2: "\<forall>ev \<in> set (trace (init only_source)). is_preamble (fst ev)"
    by (simp add: init_def)
  have p: "(conv_call 96, Raises disk_full Untouched)
      \<in> set (trace (snd (generate_png_icons world_96_fails (init only_source))))"
    by (simp add: run_simps world_96_fails_def only_source_def)
  have q: "(temp_call, Raises disk_full Untouched)
      \<in> set (trace (snd (generate_png_icons all_conversions_fail (init only_source))))"
    "(apple_call, Raises disk_full Untouched)
      \<in> set (trace (snd (generate_png_icons all_conversions_fail (init only_source))))"
    "success_count (snd (generate_png_icons all_conversions_fail (init only_source))) = 0"
    by (simp_all add: run_simps all_conversions_fail_def only_source_def)
  have m: "(96::int) \<in> set sizes" "temp_call \<in> set favicon_calls"
    by (simp_all add: sizes_def favicon_calls_def)
  have v: "str_int 96 = ''96''" "str_exn disk_full = ''No space left on device''"
    "cross_mark = [CHR 0xE2, CHR 0x9D, CHR 0x8C]"
    "conv_call 96 =
       Svg2png ''app/public/icons/icon.svg'' ''app/public/icons/icon-96x96.png'' 96 96"
    "disk_full = Exn OtherException ''No space left on device''"
    by (simp_all add: str_int_def str_nat.simps disk_full_def cross_mark_def conv_call_def
        output_path_values svg_path_def)
  note a = per_item_errors_isolated [OF h1 h2, of world_96_fails]
  note b = per_item_errors_isolated [OF h1 h2, of all_conversions_fail]
  from a p m(1) have 1: "''  '' @ cross_mark @ '' Failed to generate '' @ str_int 96 @ ''x''
      @ str_int 96 @ '': '' @ str_exn disk_full
      \<in> set (stdout (snd (generate_png_icons world_96_fails (init only_source))))"
    by blast
  from a have 2: "filter is_conversion
     (map fst (trace (snd (generate_png_icons world_96_fails (init only_source))))) =
     map conv_call sizes @ [temp_call, apple_call]"
    by blast
  from b q(1) m(2) have 3: "''  '' @ cross_mark @ '' Failed to generate favicon: ''
      @ str_exn disk_full
      \<in> set (stdout (snd (generate_png_icons all_conversions_fail (init only_source))))"
    by blast
  from b q(2) have 4: "''  '' @ cross_mark @ '' Failed to generate apple-touch-icon: ''
      @ str_exn disk_full
      \<in> set (stdout (snd (generate_png_icons all_conversions_fail (init only_source))))"
    by blast
  from b q(3) have 5: "fst (generate_png_icons all_conversions_fail (init only_source)) = Inr False"
    by simp
  from p have 6: "(Svg2png ''app/public/icons/icon.svg'' ''app/public/icons/icon-96x96.png'' 96 96,
      Raises (Exn OtherException ''No space left on device'') Untouched)
     \<in> set (trace (snd (generate_png_icons world_96_fails (init only_source))))"
    unfolding v(4) v(5) .
  from 1 3 4 have 7:
    "[CHR '' '', CHR '' '', CHR 0xE2, CHR 0x9D, CHR 0x8C]
       @ '' Failed to generate 96x96: No space left on device''
     \<in> set (stdout (snd (generate_png_icons world_96_fails (init only_source))))"
    "[CHR '' '', CHR '' '', CHR 0xE2, CHR 0x9D, CHR 0x8C]
       @ '' Failed to generate favicon: No space left on device''
     \<in> set (stdout (snd (generate_png_icons all_conversions_fail (init only_source))))"
    "[CHR '' '', CHR '' '', CHR 0xE2, CHR 0x9D, CHR 0x8C]
       @ '' Failed to generate apple-touch-icon: No space left on device''
     \<in> set (stdout (snd (generate_png_icons all_conversions_fail (init only_source))))"
    unfolding v(1,2,3) by simp_all
  from h1 h0 2 5 6 7 show ?thesis
    by blast
qed

text \<open>
  Claim C3. An output counts as succeeded when the last library call of its step returned:
  for a size and for the touch icon that is its one rasterization, for the favicon it is
  the removal of the temporary raster, which is attempted only after rasterization, open
  and save have returned. With the source present, the exit status is 0 exactly when at
  least one of these ten has succeeded, and 1 otherwise. The counter equals the number of
  outputs that succeeded, and the report prints it in the line
  \<^verbatim>\<open>Generated N icons successfully\<close>; when every rasterization raises, the status is 1
  and the line printed says 0.
\<close>

theorem exit_zero_iff_some_output:
  fixes w :: world and s :: state
  assumes "fs s svg_path \<noteq> None" and "\<forall>ev \<in> set (trace s). is_preamble (fst ev)"
  defines "r \<equiv> main_block w s"
  shows "(exit_status (fst r) = 0 \<longleftrightarrow> (\<exists>ev \<in> set (trace (snd r)). completes ev)) \<and>
         (exit_status (fst r) = 0 \<longleftrightarrow>
            (\<exists>sz \<in> set sizes. (conv_call sz, Returns) \<in> set (trace (snd r))) \<or>
            (remove_call, Returns) \<in> set (trace (snd r)) \<or>
            (apple_call, Returns) \<in> set (trace (snd r))) \<and>
         ((remove_call, Returns) \<in> set (trace (snd r)) \<longrightarrow>
            (temp_call, Returns) \<in> set (trace (snd r)) \<and>
            (open_call, Returns) \<in> set (trace (snd r)) \<and>
            (save_call, Returns) \<in> set (trace (snd r))) \<and>
         (exit_status (fst r) \<noteq> 0 \<longrightarrow> exit_status (fst r) = 1) \<and>
         success_count (snd r) = int (outputs_succeeded (trace (snd r))) \<and>
         chart_mark @ '' Generated '' @ str_int (success_count (snd r)) @ '' icons successfully''
           \<in> set (stdout (snd r)) \<and>
         ((\<forall>ev \<in> set (trace (snd r)). is_conversion (fst ev) \<longrightarrow> snd ev \<noteq> Returns) \<longrightarrow>
            exit_status (fst r) = 1 \<and> success_count (snd r) = 0 \<and>
            chart_mark @ '' Generated 0 icons successfully'' \<in> set (stdout (snd r)))"
proof -
  let ?s = "snd (generate_png_icons w s)"
  have r: "r = (Exit (if 0 < success_count ?s then 0 else 1), ?s)"
    unfolding r_def by (rule main_block_present [OF assms(1,2)])
  note g = generate_inv [OF assms(1,2), of w]
  have n: "success_count ?s = int (length (filter completes (trace ?s)))"
    using g(2) by (simp add: run_inv_def outputs_succeeded_def)
  have pos: "0 < success_count ?s \<longleftrightarrow> (\<exists>ev \<in> set (trace ?s). completes ev)"
    unfolding n by (auto simp: filter_empty_conv)
  have fav: "\<forall>p. (Os_remove p, Returns) \<in> set (trace ?s) \<longrightarrow>
      (\<forall>c \<in> set favicon_calls. (c, Returns) \<in> set (trace ?s))"
    using g(2) unfolding run_inv_def by blast
  have cc: "completes (c, x) \<longleftrightarrow>
      x = Returns \<and> ((\<exists>sz \<in> set sizes. c = conv_call sz) \<or> c = remove_call \<or> c = apple_call)"
    if "(c, x) \<in> set (trace ?s)" for c x
    using run_calls [OF assms(1,2) that] by (rule completes_cases)
  have ex: "(\<exists>ev \<in> set (trace ?s). completes ev) \<longleftrightarrow>
      (\<exists>sz \<in> set sizes. (conv_call sz, Returns) \<in> set (trace ?s)) \<or>
      (remove_call, Returns) \<in> set (trace ?s) \<or> (apple_call, Returns) \<in> set (trace ?s)"
  proof
    assume "\<exists>ev \<in> set (trace ?s). completes ev"
    then obtain c x where m: "(c, x) \<in> set (trace ?s)" and "completes (c, x)"
      by auto
    with cc [OF m] have "x = Returns"
      "(\<exists>sz \<in> set sizes. c = conv_call sz) \<or> c = remove_call \<or> c = apple_call"
      by simp_all
    with m show "(\<exists>sz \<in> set sizes. (conv_call sz, Returns) \<in> set (trace ?s)) \<or>
      (remove_call, Returns) \<in> set (trace ?s) \<or> (apple_call, Returns) \<in> set (trace ?s)"
      by blast
  next
    assume "(\<exists>sz \<in> set sizes. (conv_call sz, Returns) \<in> set (trace ?s)) \<or>
      (remove_call, Returns) \<in> set (trace ?s) \<or> (apple_call, Returns) \<in> set (trace ?s)"
    then show "\<exists>ev \<in> set (trace ?s). completes ev"
      using completes_calls(1,5,6) by blast
  qed
  have none: "\<not> completes ev"
    if all: "\<forall>ev \<in> set (trace ?s). is_conversion (fst ev) \<longrightarrow> snd ev \<noteq> Returns"
      and ev: "ev \<in> set (trace ?s)" for ev
  proof
    assume c: "completes ev"
    show False
    proof (cases ev rule: completes.cases)
      case (1 url p a b)
      with all ev show False by force
    next
      case (2 p)
      with fav ev have "(temp_call, Returns) \<in> set (trace ?s)"
        by (auto simp: favicon_calls_def)
      with all show False by (force simp: temp_call_def)
    qed (use c in auto)
  qed
  have zero: "success_count ?s = 0"
    if "\<forall>ev \<in> set (trace ?s). is_conversion (fst ev) \<longrightarrow> snd ev \<noteq> Returns"
  proof -
    have "filter completes (trace ?s) = []"
      using none [OF that] by (simp add: filter_empty_conv)
    then show ?thesis using n by simp
  qed
  have line: "chart_mark @ '' Generated '' @ str_int (success_count ?s) @ '' icons successfully''
      \<in> set (stdout ?s)"
    using g(3) by (simp add: summary_line_def)
  have "exit_status (fst r) = 0 \<longleftrightarrow> (\<exists>ev \<in> set (trace (snd r)). completes ev)"
    using pos by (simp add: r)
  moreover have "exit_status (fst r) = 0 \<longleftrightarrow>
            (\<exists>sz \<in> set sizes. (conv_call sz, Returns) \<in> set (trace (snd r))) \<or>
            (remove_call, Returns) \<in> set (trace (snd r)) \<or>
            (apple_call, Returns) \<in> set (trace (snd r))"
    using pos ex by (simp add: r)
  moreover have "(remove_call, Returns) \<in> set (trace (snd r)) \<longrightarrow>
            (temp_call, Returns) \<in> set (trace (snd r)) \<and>
            (open_call, Returns) \<in> set (trace (snd r)) \<and>
            (save_call, Returns) \<in> set (trace (snd r))"
    using fav by (auto simp: r favicon_calls_def remove_call_def)
  moreover have "exit_status (fst r) \<noteq> 0 \<longrightarrow> exit_status (fst r) = 1"
    by (simp add: r)
  moreover have "success_count (snd r) = int (outputs_succeeded (trace (snd r)))"
    using n by (simp add: r outputs_succeeded_def)
  moreover have "chart_mark @ '' Generated '' @ str_int (success_count (snd r))
      @ '' icons successfully'' \<in> set (stdout (snd r))"
    using line by (simp add: r)
  moreover have "(\<forall>ev \<in> set (trace (snd r)). is_conversion (fst ev) \<longrightarrow> snd ev \<noteq> Returns) \<longrightarrow>
      exit_status (fst r) = 1 \<and> success_count (snd r) = 0 \<and>
      chart_mark @ '' Generated 0 icons successfully'' \<in> set (stdout (snd r))"
  proof
    assume a: "\<forall>ev \<in> set (trace (snd r)). is_conversion (fst ev) \<longrightarrow> snd ev \<noteq> Returns"
    then have "success_count ?s = 0"
      using zero by (simp add: r)
    with line show "exit_status (fst r) = 1 \<and> success_count (snd r) = 0 \<and>
      chart_mark @ '' Generated 0 icons successfully'' \<in> set (stdout (snd r))"
      by (simp add: r str_int_def str_nat.simps)
  qed
  ultimately show ?thesis by blast
qed

theorem exit_zero_iff_some_output_witness:
  "fs (init only_source) svg_path \<noteq> None \<and> trace (init only_source) = [] \<and>
   exit_status (fst (main_block all_conversions_fail (init only_source))) = 1 \<and>
   success_count (snd (main_block all_conversions_fail (init only_source))) = 0 \<and>
   [CHR 0xF0, CHR 0x9F, CHR 0x93, CHR 0x8A] @ '' Generated 0 icons successfully''
     \<in> set (stdout (snd (main_block all_conversions_fail (init only_source)))) \<and>
   exit_status (fst (main_block world_96_fails (init only_source))) = 0 \<and>
   success_count (snd (main_block world_96_fails (init only_source))) = 9 \<and>
   [CHR 0xF0, CHR 0x9F, CHR 0x93, CHR 0x8A] @ '' Generated 9 icons successfully''
     \<in> set (stdout (snd (main_block world_96_fails (init only_source))))"
proof -
  have h1: "fs (init only_source) svg_path \<noteq> None"
    by (simp add: init_def only_source_def)
  have h0: "trace (init only_source) = []"
    by (simp add: init_def)
  have h2: "\<forall>ev \<in> set (trace (init only_source)). is_preamble (fst ev)"
    by (simp add: init_def)
  have mb: "snd (main_block w (init only_source)) = snd (generate_png_icons w (init only_source))"
    for w
    by (simp add: main_block_present [OF h1 h2])
  have t: "trace (snd (main_block all_conversions_fail (init only_source))) =
      [(Path_exists svg_path, Returns)] @
      map (\<lambda>sz. (conv_call sz, Raises disk_full Untouched)) sizes @
      [(temp_call, Raises disk_full Untouched), (apple_call, Raises disk_full Untouched)]"
    unfolding mb
    by (simp add: run_simps all_conversions_fail_def only_source_def)
  have a: "\<forall>ev \<in> set (trace (snd (main_block all_conversions_fail (init only_source)))).
      is_conversion (fst ev) \<longrightarrow> snd ev \<noteq> Returns"
    unfolding t by auto
  have c: "(conv_call 72, Returns)
      \<in> set (trace (snd (main_block world_96_fails (init only_source))))"
    "success_count (snd (main_block world_96_fails (init only_source))) = 9"
    unfolding mb
    by (simp_all add: run_simps world_96_fails_def only_source_def)
  have "completes (conv_call 72, Returns)"
    by (simp add: conv_call_def)
  with c have e: "\<exists>ev \<in> set (trace (snd (main_block world_96_fails (init only_source)))).
      completes ev"
    by blast
  note x = exit_zero_iff_some_output [OF h1 h2, of all_conversions_fail]
  note y = exit_zero_iff_some_output [OF h1 h2, of world_96_fails]
  from x a have 1: "exit_status (fst (main_block all_conversions_fail (init only_source))) = 1"
    "success_count (snd (main_block all_conversions_fail (init only_source))) = 0"
    "chart_mark @ '' Generated 0 icons successfully''
      \<in> set (stdout (snd (main_block all_conversions_fail (init only_source))))"
    by blast+
  from y e have 2: "exit_status (fst (main_block world_96_fails (init only_source))) = 0"
    by blast
  from y have "chart_mark @ '' Generated ''
      @ str_int (success_count (snd (main_block world_96_fails (init only_source))))
      @ '' icons successfully'' \<in> set (stdout (snd (main_block world_96_fails (init only_source))))"
    by blast
  then have 3: "chart_mark @ '' Generated 9 icons successfully''
      \<in> set (stdout (snd (main_block world_96_fails (init only_source))))"
    unfolding c(2) by (simp add: str_int_def str_nat.simps)
  from 1 2 3 c(2) h0 h1 show ?thesis
    by (simp add: chart_mark_def)
qed

text \<open>
  Claim C5. The first eight rasterizations are those of the sizes 72, 96, 128, 144, 152,
  192, 384, 512 in that order, each at width = height = size and each written to
  \<^verbatim>\<open>app/public/icons/icon-{size}x{size}.png\<close>; where the call returned, the file at that
  path is a PNG of that size when the run ends.
\<close>

theorem sizes_rasterized_in_order:
  fixes w :: world and s :: state
  assumes "fs s svg_path \<noteq> None" and "\<forall>ev \<in> set (trace s). is_preamble (fst ev)"
  defines "s' \<equiv> snd (generate_png_icons w s)"
  shows "sizes = [72, 96, 128, 144, 152, 192, 384, 512] \<and>
         take 8 (filter is_conversion (map fst (trace s'))) =
           map (\<lambda>sz. Svg2png svg_path (output_path sz) sz sz) sizes \<and>
         map output_path sizes =
           [''app/public/icons/icon-72x72.png'', ''app/public/icons/icon-96x96.png'',
            ''app/public/icons/icon-128x128.png'', ''app/public/icons/icon-144x144.png'',
            ''app/public/icons/icon-152x152.png'', ''app/public/icons/icon-192x192.png'',
            ''app/public/icons/icon-384x384.png'', ''app/public/icons/icon-512x512.png''] \<and>
         (\<forall>sz \<in> set sizes.
            (Svg2png svg_path (output_path sz) sz sz, Returns) \<in> set (trace s') \<longrightarrow>
            fs s' (output_path sz) = Some (Png sz sz))"
proof -
  note g = generate_inv [OF assms(1,2), of w, folded s'_def]
  have c: "filter is_conversion (map fst (trace s')) = map conv_call sizes @ [temp_call, apple_call]"
    using g(2) by (simp add: run_inv_def all_conversions_def)
  have "length (map conv_call sizes) = 8"
    by (simp add: sizes_def)
  then have 1: "take 8 (filter is_conversion (map fst (trace s'))) = map conv_call sizes"
    unfolding c by simp
  have 2: "fs s' (output_path sz) = Some (Png sz sz)"
    if "(Svg2png svg_path (output_path sz) sz sz, Returns) \<in> set (trace s')" for sz
  proof -
    from g(2) that have "kept (fs s') (Svg2png svg_path (output_path sz) sz sz, Returns)"
      unfolding run_inv_def by blast
    then show ?thesis by simp
  qed
  have 3: "map conv_call sizes = map (\<lambda>sz. Svg2png svg_path (output_path sz) sz sz) sizes"
    by (simp add: conv_call_def)
  show ?thesis
    using 1 2 3 output_paths by (simp add: sizes_def)
qed

theorem sizes_rasterized_in_order_witness:
  "fs (init only_source) svg_path \<noteq> None \<and> trace (init only_source) = [] \<and>
   (Svg2png svg_path (output_path 72) 72 72, Returns)
     \<in> set (trace (snd (generate_png_icons world_96_fails (init only_source)))) \<and>
   fs (snd (generate_png_icons world_96_fails (init only_source)))
     ''app/public/icons/icon-72x72.png'' = Some (Png 72 72)"
proof -
  have h1: "fs (init only_source) svg_path \<noteq> None"
    by (simp add: init_def only_source_def)
  have h0: "trace (init only_source) = []"
    by (simp add: init_def)
  have h2: "\<forall>ev \<in> set (trace (init only_source)). is_preamble (fst ev)"
    by (simp add: init_def)
  have c: "(conv_call 72, Returns)
      \<in> set (trace (snd (generate_png_icons world_96_fails (init only_source))))"
    by (simp add: run_simps world_96_fails_def only_source_def)
  have m: "(72::int) \<in> set sizes"
    by (simp add: sizes_def)
  have c': "(Svg2png svg_path (output_path 72) 72 72, Returns)
      \<in> set (trace (snd (generate_png_icons world_96_fails (init only_source))))"
    using c by (simp add: conv_call_def)
  have "fs (snd (generate_png_icons world_96_fails (init only_source))) (output_path 72)
      = Some (Png 72 72)"
    using sizes_rasterized_in_order [OF h1 h2, of world_96_fails] c' m by blast
  with c' h0 h1 show ?thesis
    by (simp add: output_path_values)
qed

text \<open>
  Claim C6. Every write that returned left a file of the requested square size: each
  rasterization was asked for width = height and, except for the temporary raster, its
  target holds a PNG of that size at the end of the run; the icon container holds the
  single frame 32 by 32; the touch icon is 180 by 180.
\<close>

theorem outputs_have_requested_dimensions:
  fixes w :: world and s :: state
  assumes "fs s svg_path \<noteq> None" and "\<forall>ev \<in> set (trace s). is_preamble (fst ev)"
  defines "s' \<equiv> snd (generate_png_icons w s)"
  shows "(\<forall>url p a b. (Svg2png url p a b, Returns) \<in> set (trace s') \<longrightarrow>
            a = b \<and> (p \<noteq> temp_path \<longrightarrow> fs s' p = Some (Png a b))) \<and>
         (\<forall>p d z. (Image_save p d z, Returns) \<in> set (trace s') \<longrightarrow>
            p = favicon_path \<and> fs s' p = Some (Ico [(32, 32)])) \<and>
         (\<forall>sz \<in> set sizes. (conv_call sz, Returns) \<in> set (trace s') \<longrightarrow>
            fs s' (output_path sz) = Some (Png sz sz)) \<and>
         ((save_call, Returns) \<in> set (trace s') \<longrightarrow>
            fs s' favicon_path = Some (Ico [(32, 32)])) \<and>
         ((apple_call, Returns) \<in> set (trace s') \<longrightarrow>
            fs s' apple_icon_path = Some (Png 180 180))"
proof -
  note g = generate_inv [OF assms(1,2), of w, folded s'_def]
  have k: "kept (fs s') ev" if "ev \<in> set (trace s')" for ev
    using g(2) that by (simp add: run_inv_def)
  have m: "is_preamble c \<or> c \<in> all_calls" if "(c, r) \<in> set (trace s')" for c r
    using run_calls [OF assms(1,2)] that unfolding s'_def by blast
  have 1: "a = b \<and> (p \<noteq> temp_path \<longrightarrow> fs s' p = Some (Png a b))"
    if "(Svg2png url p a b, Returns) \<in> set (trace s')" for url p a b
    using k [OF that] m [OF that]
    by (auto simp: all_calls_def conv_call_def favicon_calls_def fav_defs apple_call_def)
  have 2: "p = favicon_path \<and> fs s' p = Some (Ico [(32, 32)])"
    if "(Image_save p d z, Returns) \<in> set (trace s')" for p d z
    using k [OF that] m [OF that]
    by (auto simp: all_calls_def conv_call_def favicon_calls_def fav_defs apple_call_def)
  have 3: "fs s' (output_path sz) = Some (Png sz sz)"
    if "(conv_call sz, Returns) \<in> set (trace s')" for sz
    using k [OF that] by (simp add: conv_call_def)
  have 4: "fs s' favicon_path = Some (Ico [(32, 32)])" if "(save_call, Returns) \<in> set (trace s')"
    using k [OF that] by (simp add: save_call_def)
  have 5: "fs s' apple_icon_path = Some (Png 180 180)" if "(apple_call, Returns) \<in> set (trace s')"
    using k [OF that] by (simp add: apple_call_def)
  from 1 2 3 4 5 show ?thesis by blast
qed

theorem outputs_have_requested_dimensions_witness:
  "fs (init only_source) svg_path \<noteq> None \<and> trace (init only_source) = [] \<and>
   (save_call, Returns) \<in> set (trace (snd (generate_png_icons all_return (init only_source)))) \<and>
   fs (snd (generate_png_icons all_return (init only_source))) favicon_path
     = Some (Ico [(32, 32)]) \<and>
   fs (snd (generate_png_icons all_return (init only_source))) apple_icon_path
     = Some (Png 180 180) \<and>
   fs (snd (generate_png_icons all_return (init only_source))) (output_path 512)
     = Some (Png 512 512)"
proof -
  have h1: "fs (init only_source) svg_path \<noteq> None"
    by (simp add: init_def only_source_def)
  have h0: "trace (init only_source) = []"
    by (simp add: init_def)
  have h2: "\<forall>ev \<in> set (trace (init only_source)). is_preamble (fst ev)"
    by (simp add: init_def)
  have c: "(save_call, Returns) \<in> set (trace (snd (generate_png_icons all_return (init only_source))))"
    "(apple_call, Returns) \<in> set (trace (snd (generate_png_icons all_return (init only_source))))"
    "(conv_call 512, Returns) \<in> set (trace (snd (generate_png_icons all_return (init only_source))))"
    by (simp_all add: run_simps all_return_def only_source_def)
  have m: "(512::int) \<in> set sizes"
    by (simp add: sizes_def)
  from outputs_have_requested_dimensions [OF h1 h2, of all_return] c m h0 h1 show ?thesis
    by simp
qed

text \<open>
  Claim C4. When \<^verbatim>\<open>app/public/icons/icon.svg\<close> does not exist, the guarded run prints the
  banner and the line naming the missing path, asks the file system once, and ends with
  \<^verbatim>\<open>sys.exit(1)\<close>. For the whole script the status is 1, no file is created, changed or
  removed, and the only calls made are imports, the package installation and the
  existence test: no rasterization, no image load or save, no removal. Once the imports
  of lines 10 to 18 are through, the last line printed names the missing path.
\<close>

theorem missing_source_reported:
  fixes w :: world and s :: state and executable :: string
  assumes "fs s svg_path = None"
  defines "r \<equiv> script w executable s"
  shows "main_block w s =
           (Exit 1,
            s\<lparr>stdout := stdout s @
                 [rule70, ''CBV SYSTEM - PNG ICON GENERATOR'', rule70, '''',
                  cross_mark @ '' SVG file not found: app/public/icons/icon.svg''],
              trace := trace s @ [(Path_exists svg_path, Returns)]\<rparr>) \<and>
         exit_status (fst r) = 1 \<and>
         fs (snd r) = fs s \<and>
         trace (snd r) = trace s @ news s (snd r) \<and>
         (\<forall>ev \<in> set (news s (snd r)). is_preamble (fst ev)) \<and>
         (fst (module_load w executable s) = None \<longrightarrow>
            fst r = Exit 1 \<and>
            last (stdout (snd r)) =
              cross_mark @ '' SVG file not found: app/public/icons/icon.svg'' \<and>
            last (trace (snd r)) = (Path_exists svg_path, Returns))"
proof -
  obtain a s1 where m: "module_load w executable s = (a, s1)"
    by (cases "module_load w executable s")
  have f1: "fs s1 = fs s"
    using module_load_fs [of w executable s] by (simp add: m)
  have n1: "trace s1 = trace s @ news s s1" "\<forall>ev \<in> set (news s s1). is_preamble (fst ev)"
    using module_load_news [of w executable s] by (simp_all add: m)
  have mb: "main_block w s =
           (Exit 1,
            s\<lparr>stdout := stdout s @
                 [rule70, ''CBV SYSTEM - PNG ICON GENERATOR'', rule70, '''',
                  cross_mark @ '' SVG file not found: app/public/icons/icon.svg''],
              trace := trace s @ [(Path_exists svg_path, Returns)]\<rparr>)"
    using main_block_absent [OF assms(1), of w] by (simp add: not_found_line_value)
  show ?thesis
  proof (cases a)
    case (Some e)
    then have r: "r = (Uncaught e, s1)"
      by (simp add: r_def script_def m)
    from mb f1 n1 show ?thesis
      by (simp add: r m Some)
  next
    case None
    from assms(1) f1 have "fs s1 svg_path = None"
      by simp
    then have "main_block w s1 =
      (Exit 1, s1\<lparr>stdout := stdout s1 @
        [rule70, ''CBV SYSTEM - PNG ICON GENERATOR'', rule70, '''', not_found_line],
       trace := trace s1 @ [(Path_exists svg_path, Returns)]\<rparr>)"
      by (rule main_block_absent)
    then have r: "r = (Exit 1, s1\<lparr>stdout := stdout s1 @
        [rule70, ''CBV SYSTEM - PNG ICON GENERATOR'', rule70, '''', not_found_line],
       trace := trace s1 @ [(Path_exists svg_path, Returns)]\<rparr>)"
      by (simp add: r_def script_def m None)
    have t: "trace (snd r) = trace s @ (news s s1 @ [(Path_exists svg_path, Returns)])"
      using n1(1) by (simp add: r)
    have e: "news s (snd r) = news s s1 @ [(Path_exists svg_path, Returns)]"
      using t by (rule news_append)
    have "trace (snd r) = trace s @ news s (snd r)"
      unfolding e by (rule t)
    moreover have "\<forall>ev \<in> set (news s (snd r)). is_preamble (fst ev)"
      unfolding e using n1(2) by simp
    moreover have "exit_status (fst r) = 1" "fs (snd r) = fs s" "fst r = Exit 1"
      "last (stdout (snd r)) = cross_mark @ '' SVG file not found: app/public/icons/icon.svg''"
      "last (trace (snd r)) = (Path_exists svg_path, Returns)"
      using f1 by (simp_all add: r not_found_line_value)
    ultimately show ?thesis
      using mb by blast
  qed
qed

theorem missing_source_reported_witness:
  "fs (init Map.empty) svg_path = None \<and>
   script all_return ''/usr/bin/python3'' (init Map.empty) =
     (Exit 1,
      \<lparr>fs = Map.empty,
       stdout = [rule70, ''CBV SYSTEM - PNG ICON GENERATOR'', rule70, '''',
                 cross_mark @ '' SVG file not found: app/public/icons/icon.svg''],
       trace = [(Import ''PIL'', Returns), (Import ''cairosvg'', Returns),
                (Path_exists ''app/public/icons/icon.svg'', Returns)],
       success_count = 0, img = None\<rparr>) \<and>
   exit_status (fst (script all_return ''/usr/bin/python3'' (init Map.empty))) = 1 \<and>
   fs (snd (script all_return ''/usr/bin/python3'' (init Map.empty))) = Map.empty"
proof -
  have h: "fs (init Map.empty) svg_path = None"
    by (simp add: init_def)
  have m: "module_load all_return ''/usr/bin/python3'' (init Map.empty) =
      (None, (init Map.empty)\<lparr>trace := [(Import ''PIL'', Returns), (Import ''cairosvg'', Returns)]\<rparr>)"
    by (simp add: module_load_def try_except_def import_module_def call_lib_def all_return_def
        record_event_def init_def)
  have s: "script all_return ''/usr/bin/python3'' (init Map.empty) =
     (Exit 1,
      \<lparr>fs = Map.empty,
       stdout = [rule70, ''CBV SYSTEM - PNG ICON GENERATOR'', rule70, '''',
                 cross_mark @ '' SVG file not found: app/public/icons/icon.svg''],
       trace = [(Import ''PIL'', Returns), (Import ''cairosvg'', Returns),
                (Path_exists ''app/public/icons/icon.svg'', Returns)],
       success_count = 0, img = None\<rparr>)"
    unfolding script_def m
    by (simp add: main_block_absent not_found_line_value init_def svg_path_def)
  from missing_source_reported [OF h, of all_return "''/usr/bin/python3''"] h s
  show ?thesis
    by (simp add: init_def)
qed

text \<open>
  Claim C10. The handler at line 13 is \<^verbatim>\<open>except ImportError\<close>, so the installation and
  the second attempt follow only an import that raises \<^verbatim>\<open>ImportError\<close>. An import that
  fails with another exception (\<^verbatim>\<open>import cairosvg\<close> raises \<^verbatim>\<open>OSError\<close> when the cairo
  library cannot be loaded) ends the program at once: no line is printed, no installer is
  run, nothing is imported again.
\<close>

theorem import_failure_other_than_ImportError_aborts:
  "script cairo_unloadable ''/usr/bin/python3'' (init only_source) =
     (Uncaught (Exn OtherException ''no library called cairo was found''),
      \<lparr>fs = only_source, stdout = [],
       trace = [(Import ''PIL'', Returns),
                (Import ''cairosvg'',
                 Raises (Exn OtherException ''no library called cairo was found'') Untouched)],
       success_count = 0, img = None\<rparr>)"
  by (simp add: script_def module_load_def try_except_def import_module_def call_lib_def
      cairo_unloadable_def libcairo_missing_def record_event_def leave_def init_def)

text \<open>
  Claim C10, amended. When the first attempt to import the two libraries raises
  \<^verbatim>\<open>ImportError\<close>, module load does not end there: it prints two lines, runs
  \<^verbatim>\<open>os.system\<close> on the interpreter's path followed by
  \<^verbatim>\<open>-m pip install pillow cairosvg\<close>, and imports again, starting with \<^verbatim>\<open>PIL\<close>. Up to
  that point only imports have been attempted and no file has been touched. The script
  then is the guarded run from the state the second imports leave, or, when they raise
  again, ends with that exception uncaught: the handler around the guarded run is not
  in force and nothing further is printed.
\<close>

theorem missing_libraries_installed_then_retried:
  fixes w :: world and s :: state and executable :: string
  assumes "fst (import_both w s) = Some e" and "is_ImportError e"
  defines "s1 \<equiv> snd (import_both w s)"
  defines "s2 \<equiv> installed executable s1"
  defines "s3 \<equiv> snd (import_both w s2)"
  shows "module_load w executable s = import_both w s2 \<and>
         script w executable s =
           (case fst (import_both w s2) of
              None \<Rightarrow> main_block w s3
            | Some e' \<Rightarrow> (Uncaught e', s3)) \<and>
         stdout s2 = stdout s @
           [cross_mark @ '' Required packages not installed'',
            ''Installing required packages...''] \<and>
         trace s2 = trace s @ news s s1 @
           [(Os_system (executable @ '' -m pip install pillow cairosvg''), Returns)] \<and>
         (\<forall>ev \<in> set (news s s1). is_import (fst ev)) \<and>
         fs s2 = fs s \<and>
         trace s3 = trace s2 @ news s2 s3 \<and>
         news s2 s3 \<noteq> [] \<and>
         fst (hd (news s2 s3)) = Import ''PIL'' \<and>
         (\<forall>ev \<in> set (news s2 s3). is_import (fst ev)) \<and>
         stdout s3 = stdout s2 \<and>
         fs s3 = fs s"
proof -
  obtain b where i: "import_both w s = (Some e, b)"
    using assms(1) by (cases "import_both w s") simp
  then have b: "b = s1"
    by (simp add: s1_def)
  have m: "module_load w executable s = import_both w s2"
    using assms(2) by (simp add: module_load_unfold i b s2_def)
  have sc: "script w executable s =
           (case fst (import_both w s2) of
              None \<Rightarrow> main_block w s3
            | Some e' \<Rightarrow> (Uncaught e', s3))"
    unfolding script_def m s3_def
    by (cases "import_both w s2") (simp split: option.splits)
  note n1 = import_both_news [of w s, folded s1_def]
  note n2 = import_both_news [of w s2, folded s3_def]
  have t2: "trace s2 = trace s @ news s s1 @
           [(Os_system (executable @ '' -m pip install pillow cairosvg''), Returns)]"
  proof -
    have "trace s2 = trace s1 @ [(Os_system (install_command executable), Returns)]"
      by (simp add: s2_def)
    also have "trace s1 = trace s @ news s s1"
      using n1 by (rule conjunct1)
    finally show ?thesis
      by (simp add: install_command_def)
  qed
  have o: "stdout s2 = stdout s @
           [cross_mark @ '' Required packages not installed'',
            ''Installing required packages...'']"
    "fs s2 = fs s" "stdout s3 = stdout s2" "fs s3 = fs s"
    by (simp_all add: s2_def s1_def s3_def)
  from m sc t2 o n1 n2 show ?thesis
    by blast
qed

theorem missing_libraries_installed_then_retried_witness:
  "fst (import_both missing_until_installed (init Map.empty)) = Some no_module \<and>
   is_ImportError no_module \<and>
   script missing_until_installed ''/usr/bin/python3'' (init Map.empty) =
     (Exit 1,
      \<lparr>fs = Map.empty,
       stdout = [cross_mark @ '' Required packages not installed'',
                 ''Installing required packages...'',
                 rule70, ''CBV SYSTEM - PNG ICON GENERATOR'', rule70, '''',
                 cross_mark @ '' SVG file not found: app/public/icons/icon.svg''],
       trace = [(Import ''PIL'', Raises no_module Untouched),
                (Os_system ''/usr/bin/python3 -m pip install pillow cairosvg'', Returns),
                (Import ''PIL'', Returns), (Import ''cairosvg'', Returns),
                (Path_exists ''app/public/icons/icon.svg'', Returns)],
       success_count = 0, img = None\<rparr>) \<and>
   fst (import_both never_importable (init Map.empty)) = Some no_module \<and>
   script never_importable ''/usr/bin/python3'' (init Map.empty) =
     (Uncaught no_module,
      \<lparr>fs = Map.empty,
       stdout = [cross_mark @ '' Required packages not installed'',
                 ''Installing required packages...''],
       trace = [(Import ''PIL'', Raises no_module Untouched),
                (Os_system ''/usr/bin/python3 -m pip install pillow cairosvg'', Returns),
                (Import ''PIL'', Raises no_module Untouched)],
       success_count = 0, img = None\<rparr>)"
proof -
  let ?x = "''/usr/bin/python3''"
  let ?s1 = "(init Map.empty)\<lparr>trace := [(Import ''PIL'', Raises no_module Untouched)]\<rparr>"
  have i1: "import_both w (init Map.empty) = (Some no_module, ?s1)"
    if "w [] Map.empty (Import ''PIL'') = Raises no_module Untouched" for w
    using that
    by (simp add: import_both_def import_module_def call_lib_def record_event_def leave_def
        init_def)
  have a1: "import_both missing_until_installed (init Map.empty) = (Some no_module, ?s1)"
    by (rule i1) (simp add: missing_until_installed_def)
  have b1: "import_both never_importable (init Map.empty) = (Some no_module, ?s1)"
    by (rule i1) (simp add: never_importable_def)
  have h: "is_ImportError no_module"
    by (simp add: no_module_def)
  have a2: "import_both missing_until_installed (installed ?x ?s1) =
      (None, (installed ?x ?s1)\<lparr>trace := trace (installed ?x ?s1) @
         [(Import ''PIL'', Returns), (Import ''cairosvg'', Returns)]\<rparr>)"
    by (simp add: import_both_def import_module_def call_lib_def record_event_def
        missing_until_installed_def installed_def init_def)
  have b2: "import_both never_importable (installed ?x ?s1) =
      (Some no_module, (installed ?x ?s1)\<lparr>trace := trace (installed ?x ?s1) @
         [(Import ''PIL'', Raises no_module Untouched)]\<rparr>)"
    by (simp add: import_both_def import_module_def call_lib_def record_event_def leave_def
        never_importable_def installed_def init_def)
  have a: "fst (import_both missing_until_installed (init Map.empty)) = Some no_module"
    by (simp add: a1)
  have b: "fst (import_both never_importable (init Map.empty)) = Some no_module"
    by (simp add: b1)
  have ra: "script missing_until_installed ?x (init Map.empty) =
      main_block missing_until_installed ((installed ?x ?s1)\<lparr>trace := trace (installed ?x ?s1) @
         [(Import ''PIL'', Returns), (Import ''cairosvg'', Returns)]\<rparr>)"
    using missing_libraries_installed_then_retried [OF a h, of ?x]
    by (simp add: a1 a2)
  have rb: "script never_importable ?x (init Map.empty) =
      (Uncaught no_module, (installed ?x ?s1)\<lparr>trace := trace (installed ?x ?s1) @
         [(Import ''PIL'', Raises no_module Untouched)]\<rparr>)"
    using missing_libraries_installed_then_retried [OF b h, of ?x]
    by (simp add: b1 b2)
  from a b h show ?thesis
    unfolding ra rb
    by (simp add: main_block_absent not_found_line_value installed_def init_def
        install_command_def svg_path_def)
qed

text \<open>
  Claim C7. The favicon step makes its library calls in a fixed order, each one only after
  the one before it has returned: \<^verbatim>\<open>svg2png\<close> of the source to
  \<^verbatim>\<open>app/public/favicon-temp.png\<close> at 32 by 32, \<^verbatim>\<open>Image.open\<close> of that file,
  \<^verbatim>\<open>save\<close> of the opened 32 by 32 image to \<^verbatim>\<open>app/public/favicon.ico\<close> as ICO with the
  single size (32, 32), and \<^verbatim>\<open>os.remove\<close> of the temporary file. Once the save has
  returned, \<^verbatim>\<open>favicon.ico\<close> holds an ICO with exactly one frame, 32 by 32, whatever
  happens afterwards; when all four calls return, the only changes to the file system are
  that file and the absence of the temporary raster.
\<close>

theorem favicon_via_temporary_raster:
  fixes w :: world and s :: state
  defines "s' \<equiv> snd (favicon w s)"
  shows "fst (favicon w s) = None \<and>
         trace s' = trace s @ news s s' \<and>
         news s s' \<noteq> [] \<and>
         map fst (news s s') =
           take (length (news s s'))
             [Svg2png ''app/public/icons/icon.svg'' ''app/public/favicon-temp.png'' 32 32,
              Image_open ''app/public/favicon-temp.png'',
              Image_save ''app/public/favicon.ico'' (32, 32) [(32, 32)],
              Os_remove ''app/public/favicon-temp.png''] \<and>
         (\<forall>ev \<in> set (butlast (news s s')). snd ev = Returns) \<and>
         ((save_call, Returns) \<in> set (news s s') \<longrightarrow>
            fs s' ''app/public/favicon.ico'' = Some (Ico [(32, 32)])) \<and>
         (snd (last (news s s')) = Returns \<longrightarrow>
            length (news s s') = 4 \<and>
            fs s' = (fs s)(''app/public/favicon-temp.png'' := None,
                           ''app/public/favicon.ico'' \<mapsto> Ico [(32, 32)]))"
proof -
  have t: "fst (favicon w s) = None \<and> trace s' = trace s @ news s s'"
    unfolding s'_def by (rule favicon_trace)
  have eq: "s' = snd (favicon w s)"
    by (simp add: s'_def)
  have "news s s' \<noteq> [] \<and>
         map fst (news s s') =
           take (length (news s s')) [temp_call, open_call, save_call, remove_call] \<and>
         (\<forall>ev \<in> set (butlast (news s s')). snd ev = Returns) \<and>
         ((save_call, Returns) \<in> set (news s s') \<longrightarrow>
            fs s' favicon_path = Some (Ico [(32, 32)])) \<and>
         (snd (last (news s s')) = Returns \<longrightarrow>
            length (news s s') = 4 \<and>
            fs s' = (fs s)(temp_path := None, favicon_path \<mapsto> Ico [(32, 32)]))"
    by (cases rule: favicon_outcomes [OF eq]) simp_all
  then have "news s s' \<noteq> [] \<and>
         map fst (news s s') =
           take (length (news s s'))
             [Svg2png ''app/public/icons/icon.svg'' ''app/public/favicon-temp.png'' 32 32,
              Image_open ''app/public/favicon-temp.png'',
              Image_save ''app/public/favicon.ico'' (32, 32) [(32, 32)],
              Os_remove ''app/public/favicon-temp.png''] \<and>
         (\<forall>ev \<in> set (butlast (news s s')). snd ev = Returns) \<and>
         ((save_call, Returns) \<in> set (news s s') \<longrightarrow>
            fs s' ''app/public/favicon.ico'' = Some (Ico [(32, 32)])) \<and>
         (snd (last (news s s')) = Returns \<longrightarrow>
            length (news s s') = 4 \<and>
            fs s' = (fs s)(''app/public/favicon-temp.png'' := None,
                           ''app/public/favicon.ico'' \<mapsto> Ico [(32, 32)]))"
    by (simp add: favicon_call_values temp_path_def favicon_path_def)
  with t show ?thesis
    by blast
qed

theorem favicon_via_temporary_raster_witness:
  "news (init only_source) (snd (favicon all_return (init only_source))) =
     [(Svg2png ''app/public/icons/icon.svg'' ''app/public/favicon-temp.png'' 32 32, Returns),
      (Image_open ''app/public/favicon-temp.png'', Returns),
      (Image_save ''app/public/favicon.ico'' (32, 32) [(32, 32)], Returns),
      (Os_remove ''app/public/favicon-temp.png'', Returns)] \<and>
   fs (snd (favicon all_return (init only_source))) =
     [''app/public/icons/icon.svg'' \<mapsto> Svg, ''app/public/favicon.ico'' \<mapsto> Ico [(32, 32)]]"
proof -
  let ?s' = "snd (favicon all_return (init only_source))"
  have n: "news (init only_source) ?s' =
      [(temp_call, Returns), (open_call, Returns), (save_call, Returns), (remove_call, Returns)]"
    by (simp add: favicon_returns all_return_def news_def init_def)
  then have l: "snd (last (news (init only_source) ?s')) = Returns"
    by simp
  from favicon_via_temporary_raster [of all_return "init only_source"] l
  have "fs ?s' = (fs (init only_source))(''app/public/favicon-temp.png'' := None,
                           ''app/public/favicon.ico'' \<mapsto> Ico [(32, 32)])"
    by blast
  then have "fs ?s' =
     [''app/public/icons/icon.svg'' \<mapsto> Svg, ''app/public/favicon.ico'' \<mapsto> Ico [(32, 32)]]"
    by (auto simp: init_def only_source_def svg_path_def fun_eq_iff)
  with n show ?thesis
    by (simp add: favicon_call_values)
qed

text \<open>
  Claim C9. The favicon step adds one to the counter exactly when the rasterization to the
  temporary file, the save of \<^verbatim>\<open>favicon.ico\<close> and the removal of the temporary file
  have all returned; otherwise the counter is unchanged. When the save has returned and
  the removal raises, \<^verbatim>\<open>favicon.ico\<close> is on disk with its 32 by 32 frame, the counter is
  unchanged, and the one line printed is the favicon failure line with the text of the
  exception.
\<close>

theorem favicon_counted_iff_all_steps_return:
  fixes w :: world and s :: state
  defines "s' \<equiv> snd (favicon w s)"
  shows "(success_count s' = success_count s + 1 \<longleftrightarrow>
            (temp_call, Returns) \<in> set (news s s') \<and>
            (save_call, Returns) \<in> set (news s s') \<and>
            (remove_call, Returns) \<in> set (news s s')) \<and>
         (success_count s' \<noteq> success_count s + 1 \<longrightarrow> success_count s' = success_count s) \<and>
         (\<forall>e r. (save_call, Returns) \<in> set (news s s') \<and>
                (remove_call, Raises e r) \<in> set (news s s') \<longrightarrow>
            fs s' favicon_path = Some (Ico [(32, 32)]) \<and>
            success_count s' = success_count s \<and>
            stdout s' = stdout s @ [favicon_failed_line e])"
proof -
  have eq: "s' = snd (favicon w s)"
    by (simp add: s'_def)
  show ?thesis
    by (cases rule: favicon_outcomes [OF eq]) simp_all
qed

theorem favicon_counted_iff_all_steps_return_witness:
  "(save_call, Returns)
     \<in> set (news (init only_source) (snd (favicon remove_fails (init only_source)))) \<and>
   (remove_call, Raises denied Untouched)
     \<in> set (news (init only_source) (snd (favicon remove_fails (init only_source)))) \<and>
   fs (snd (favicon remove_fails (init only_source))) favicon_path = Some (Ico [(32, 32)]) \<and>
   success_count (snd (favicon remove_fails (init only_source))) = 0 \<and>
   stdout (snd (favicon remove_fails (init only_source))) =
     [''  '' @ cross_mark @ '' Failed to generate favicon: Permission denied''] \<and>
   success_count (snd (favicon all_return (init only_source))) = 1"
proof -
  let ?s = "init only_source"
  have n: "news ?s (snd (favicon remove_fails ?s)) =
      [(temp_call, Returns), (open_call, Returns), (save_call, Returns),
       (remove_call, Raises denied Untouched)]"
    by (simp add: favicon_raise4 [of _ _ denied Untouched] remove_fails_def news_def init_def)
  have a: "(save_call, Returns) \<in> set (news ?s (snd (favicon remove_fails ?s)))"
    "(remove_call, Raises denied Untouched) \<in> set (news ?s (snd (favicon remove_fails ?s)))"
    unfolding n by simp_all
  have m: "news ?s (snd (favicon all_return ?s)) =
      [(temp_call, Returns), (open_call, Returns), (save_call, Returns), (remove_call, Returns)]"
    by (simp add: favicon_returns all_return_def news_def init_def)
  have b: "(temp_call, Returns) \<in> set (news ?s (snd (favicon all_return ?s)))"
    "(save_call, Returns) \<in> set (news ?s (snd (favicon all_return ?s)))"
    "(remove_call, Returns) \<in> set (news ?s (snd (favicon all_return ?s)))"
    unfolding m by simp_all
  have z: "success_count ?s = 0" "stdout ?s = []"
    by (simp_all add: init_def)
  have 1: "fs (snd (favicon remove_fails ?s)) favicon_path = Some (Ico [(32, 32)]) \<and>
      success_count (snd (favicon remove_fails ?s)) = success_count ?s \<and>
      stdout (snd (favicon remove_fails ?s)) = stdout ?s @ [favicon_failed_line denied]"
    using favicon_counted_iff_all_steps_return [of remove_fails ?s] a by blast
  have 2: "success_count (snd (favicon all_return ?s)) = success_count ?s + 1"
    using favicon_counted_iff_all_steps_return [of all_return ?s] b by blast
  from a 1 2 show ?thesis
    unfolding z by (simp add: favicon_failed_line_def denied_def)
qed

text \<open>
  Claim C1. \<^verbatim>\<open>os.remove\<close> of the temporary raster is the fourth statement of the favicon
  \<^verbatim>\<open>try\<close> block and there is no \<^verbatim>\<open>finally\<close>: when the rasterization has returned and
  the save of \<^verbatim>\<open>favicon.ico\<close> raises, control goes to the handler and the removal is never
  attempted. With only the source on disk and a save that raises
  \<^verbatim>\<open>Permission denied\<close>, the script ends with status 0 and
  \<^verbatim>\<open>app/public/favicon-temp.png\<close> is still there, a 32 by 32 PNG.
\<close>

theorem temp_raster_left_when_save_fails:
  "fst (script save_fails ''/usr/bin/python3'' (init only_source)) = Exit 0 \<and>
   fs (snd (script save_fails ''/usr/bin/python3'' (init only_source)))
     ''app/public/favicon-temp.png'' = Some (Png 32 32) \<and>
   (save_call, Raises denied Untouched)
     \<in> set (trace (snd (script save_fails ''/usr/bin/python3'' (init only_source)))) \<and>
   remove_call
     \<notin> fst ` set (trace (snd (script save_fails ''/usr/bin/python3'' (init only_source)))) \<and>
   success_count (snd (script save_fails ''/usr/bin/python3'' (init only_source))) = 9"
proof -
  let ?s0 = "(init only_source)\<lparr>trace := [(Import ''PIL'', Returns), (Import ''cairosvg'', Returns)]\<rparr>"
  have m: "module_load save_fails ''/usr/bin/python3'' (init only_source) = (None, ?s0)"
    by (simp add: module_load_def try_except_def import_module_def call_lib_def save_fails_def
        record_event_def init_def fav_defs)
  have s: "script save_fails ''/usr/bin/python3'' (init only_source) = main_block save_fails ?s0"
    unfolding script_def m by simp
  have h1: "fs ?s0 svg_path \<noteq> None"
    by (simp add: init_def only_source_def)
  have h2: "\<forall>ev \<in> set (trace ?s0). is_preamble (fst ev)"
    by simp
  note mb = main_block_present [OF h1 h2, of save_fails]
  have t: "trace (snd (generate_png_icons save_fails ?s0)) =
      [(Import ''PIL'', Returns), (Import ''cairosvg'', Returns), (Path_exists svg_path, Returns)] @
      map (\<lambda>sz. (conv_call sz, Returns)) sizes @
      [(temp_call, Returns), (open_call, Returns), (save_call, Raises denied Untouched),
       (apple_call, Returns)]"
    by (simp add: run_simps save_fails_def only_source_def)
  have c: "success_count (snd (generate_png_icons save_fails ?s0)) = 9"
    by (simp add: run_simps save_fails_def only_source_def)
  have f: "fs (snd (generate_png_icons save_fails ?s0)) temp_path = Some (Png 32 32)"
    by (simp add: run_simps save_fails_def only_source_def)
  have r: "remove_call \<notin> fst ` set (trace (snd (generate_png_icons save_fails ?s0)))"
    unfolding t by (auto simp: sizes_def fav_defs conv_call_def apple_call_def)
  have e: "(save_call, Raises denied Untouched)
      \<in> set (trace (snd (generate_png_icons save_fails ?s0)))"
    unfolding t by simp
  from c f r e show ?thesis
    unfolding s mb by (simp add: temp_path_def)
qed





end
